theory Spec2Isabelle
  imports Main "HOL-Library.AList"
begin

section \<open>JavaScript values and thrown errors\<close>

text \<open>
  The server (\<^verbatim>\<open>src/index.ts\<close>) passes upstream JSON through without looking at it,
  except for a few fields. A value is what \<^verbatim>\<open>JSON.parse\<close> can produce, plus
  \<^verbatim>\<open>undefined\<close> for a property that is absent. An object is the list of its own
  properties in enumeration order. Numbers are modelled as integers: the server never
  computes with a number it received.
\<close>

datatype js =
    JUndefined
  | JNull
  | JBool bool
  | JNum int
  | JStr string
  | JArr "js list"
  | JObj "(string \<times> js) list"

text \<open>JavaScript truthiness, as used by \<^verbatim>\<open>&&\<close>, \<^verbatim>\<open>||\<close>, \<^verbatim>\<open>if\<close> and \<^verbatim>\<open>while\<close>.\<close>

fun truthy :: "js \<Rightarrow> bool" where
  "truthy JUndefined = False"
| "truthy JNull = False"
| "truthy (JBool b) = b"
| "truthy (JNum n) = (n \<noteq> 0)"
| "truthy (JStr s) = (s \<noteq> [])"
| "truthy (JArr xs) = True"
| "truthy (JObj fs) = True"

text \<open>\<^verbatim>\<open>a || b\<close>\<close>

definition js_or :: "js \<Rightarrow> js \<Rightarrow> js" where
  "js_or a b = (if truthy a then a else b)"

text \<open>\<^verbatim>\<open>Array.isArray(v)\<close>\<close>

fun isArray :: "js \<Rightarrow> bool" where
  "isArray (JArr xs) = True"
| "isArray v = False"

text \<open>The elements of an array value (used only under \<^verbatim>\<open>Array.isArray\<close>).\<close>

fun elements :: "js \<Rightarrow> js list" where
  "elements (JArr xs) = xs"
| "elements v = []"

text \<open>
  A thrown value, by what the handlers do with it:
  \<^item> \<open>message\<close>: its \<^verbatim>\<open>message\<close>, when it is an object (not \<^verbatim>\<open>null\<close>) with a string
    \<^verbatim>\<open>message\<close> property, which is what \<^verbatim>\<open>isErrorWithMessage\<close> tests;
  \<^item> \<open>as_string\<close>: \<^verbatim>\<open>String(error)\<close>;
  \<^item> \<open>stringify\<close>: what \<^verbatim>\<open>JSON.stringify(error, null, 2)\<close> throws, when it throws (on a
    cyclic value, on a \<^verbatim>\<open>BigInt\<close>, or out of a \<^verbatim>\<open>toJSON\<close>); \<open>None\<close> when it returns.
  Reading \<^verbatim>\<open>error.message\<close> and \<^verbatim>\<open>String(error)\<close> are taken to return.
\<close>

datatype thrown =
  Thrown (message: "string option") (as_string: string) (stringify: "thrown option")

fun isErrorWithMessage :: "thrown \<Rightarrow> bool" where
  "isErrorWithMessage (Thrown m s j) = (m \<noteq> None)"

fun getErrorMessage :: "thrown \<Rightarrow> string" where
  "getErrorMessage (Thrown m s j) = (case m of Some text \<Rightarrow> text | None \<Rightarrow> s)"

text \<open>An \<^verbatim>\<open>Error\<close> with the given message, which \<^verbatim>\<open>JSON.stringify\<close> serialises.\<close>

definition ErrorWithMessage :: "string \<Rightarrow> thrown" where
  "ErrorWithMessage m = Thrown (Some m) (''Error: '' @ m) None"

text \<open>
  A \<^verbatim>\<open>TypeError\<close> raised by the runtime itself. Its message is the engine's; the
  server only ever logs it.
\<close>

definition TypeError :: thrown where
  "TypeError = Thrown (Some ''TypeError'') ''TypeError'' None"

subsection \<open>Numbers in strings\<close>

text \<open>
  The decimal digits of a natural number: how \<^verbatim>\<open>${totalCount}\<close> prints the count of
  get-deals, which is a small non-negative integer.
\<close>

fun String_nat :: "nat \<Rightarrow> string" where
  "String_nat n =
     (if n < 10 then [''0123456789'' ! n]
      else String_nat (n div 10) @ [''0123456789'' ! (n mod 10)])"

section \<open>The upstream API\<close>

text \<open>
  What an SDK call resolves to: \<^verbatim>\<open>{data, additional_data: {pagination:
  {more_items_in_collection}, next_cursor}}\<close>. \<^verbatim>\<open>None\<close> is an absent (or null) object;
  \<^verbatim>\<open>JUndefined\<close> an absent property. The \<^verbatim>\<open>success\<close> field is only logged.

  Two things are left out of the model. The \<^verbatim>\<open>console\<close> output of the handlers is not
  modelled; of the expressions it prints, the one that can throw on what the handler holds
  is \<^verbatim>\<open>JSON.stringify(error, null, 2)\<close> in the \<^verbatim>\<open>catch\<close> block of get-deals, and that one is
  modelled. A call that resolves is taken to resolve to an object, so that reading a field
  of the response does not throw.
\<close>

record pagination_data =
  more_items_in_collection :: js

record additional =
  pagination :: "pagination_data option"
  next_cursor :: js

record response =
  data :: js
  additional_data :: "additional option"

text \<open>The \<^verbatim>\<open>status\<close> argument of get-deals (a zod enum).\<close>

datatype deal_status = Open | Won | Lost | Deleted | All_not_deleted

fun status_string :: "deal_status \<Rightarrow> string" where
  "status_string Open = ''open''"
| "status_string Won = ''won''"
| "status_string Lost = ''lost''"
| "status_string Deleted = ''deleted''"
| "status_string All_not_deleted = ''all_not_deleted''"

text \<open>
  What \<^verbatim>\<open>pipelinesApi.getPipelines()\<close> resolves to: \<^verbatim>\<open>data\<close> is an array of pipeline
  objects, or absent. A pipeline is the list of its properties; get-stages reads
  \<^verbatim>\<open>pipeline.id\<close> and \<^verbatim>\<open>pipeline.name\<close>.
\<close>

type_synonym pipeline = "(string \<times> js) list"

record pipelines_response =
  pipelines_data :: "pipeline list option"

text \<open>
  The calls the server can issue, with their arguments in the order of the source's
  request object: \<^verbatim>\<open>getDeals({start, limit, status})\<close>,
  \<^verbatim>\<open>getDealChangelog({id, cursor, limit})\<close>, \<^verbatim>\<open>getPersons({start, limit})\<close>,
  \<^verbatim>\<open>searchItem({term, item_types})\<close>, and so on. \<^verbatim>\<open>FetchStages\<close> is the raw
  \<^verbatim>\<open>fetch\<close> of \<^verbatim>\<open>/api/v2/stages?pipeline_id=${pipeline.id}\<close> followed by
  \<^verbatim>\<open>.json()\<close>, keyed by the value of \<^verbatim>\<open>pipeline.id\<close>.
  A handler's trace is the list of calls it issued, oldest first.
\<close>

datatype call =
    GetDeals nat nat deal_status
  | GetDeal int
  | GetDealChangelog int js int
  | SearchDeals string
  | GetPersons nat nat
  | GetPerson int
  | SearchPersons string
  | GetOrganizations nat nat
  | GetOrganization int
  | SearchOrganization string
  | GetPipelines
  | GetPipeline int
  | FetchStages js
  | SearchLeads string
  | SearchItem string "string option"

text \<open>
  The upstream, as a deterministic service: each call either resolves (\<open>Inr\<close>) or
  rejects with a thrown value (\<open>Inl\<close>).
\<close>

record upstream =
  getDeals :: "nat \<Rightarrow> nat \<Rightarrow> deal_status \<Rightarrow> thrown + response"
  getDeal :: "int \<Rightarrow> thrown + response"
  getDealChangelog :: "int \<Rightarrow> js \<Rightarrow> int \<Rightarrow> thrown + response"
  searchDeals :: "string \<Rightarrow> thrown + response"
  getPersons :: "nat \<Rightarrow> nat \<Rightarrow> thrown + response"
  getPerson :: "int \<Rightarrow> thrown + response"
  searchPersons :: "string \<Rightarrow> thrown + response"
  getOrganizations :: "nat \<Rightarrow> nat \<Rightarrow> thrown + response"
  getOrganization :: "int \<Rightarrow> thrown + response"
  searchOrganization :: "string \<Rightarrow> thrown + response"
  getPipelines :: "thrown + pipelines_response"
  getPipeline :: "int \<Rightarrow> thrown + response"
  fetchStages :: "js \<Rightarrow> thrown + js"
  searchLeads :: "string \<Rightarrow> thrown + response"
  searchItem :: "string \<Rightarrow> string option \<Rightarrow> thrown + response"

section \<open>Tool results\<close>

text \<open>
  A template string, piece by piece: its own characters, a number put in by \<^verbatim>\<open>${...}\<close>
  (an ID argument, which \<^verbatim>\<open>z.number()\<close> admits as any number; how JavaScript prints it is
  not modelled) and a string put in by \<^verbatim>\<open>${...}\<close>.
\<close>

datatype piece =
    Fixed string
  | Number int
  | Inserted string

text \<open>
  The \<^verbatim>\<open>text\<close> of a content item is either \<^verbatim>\<open>JSON.stringify(v, null, 2)\<close> of a value
  or a template string.
\<close>

datatype text_payload =
    Stringified js
  | Template "piece list"

record content_item =
  type' :: string
  text' :: text_payload

text \<open>\<^verbatim>\<open>isError\<close> is absent on success; \<open>False\<close> stands for absent.\<close>

record tool_result =
  content :: "content_item list"
  isError :: bool

definition text_result :: "text_payload \<Rightarrow> tool_result" where
  "text_result t = \<lparr>content = [\<lparr>type' = ''text'', text' = t\<rparr>], isError = False\<rparr>"

definition error_result :: "piece list \<Rightarrow> tool_result" where
  "error_result m = \<lparr>content = [\<lparr>type' = ''text'', text' = Template m\<rparr>], isError = True\<rparr>"

section \<open>get-deals\<close>

text \<open>The local variables of a pagination loop (\<open>allItems\<close> is \<^verbatim>\<open>allDeals\<close>,
  \<^verbatim>\<open>allPersons\<close> or \<^verbatim>\<open>allOrganizations\<close>).\<close>

record loop_vars =
  allItems :: "js list"
  start :: nat
  hasMore :: bool
  pageCount :: nat

text \<open>\<^verbatim>\<open>const limit = 500\<close>, in each of the three loops.\<close>

definition limit :: nat where
  "limit = 500"

text \<open>
  The truthiness of the optional boolean \<^verbatim>\<open>count_only\<close>: absent (\<open>None\<close>) counts as false.
\<close>

definition is_true :: "bool option \<Rightarrow> bool" where
  "is_true b = (b = Some True)"

text \<open>\<^verbatim>\<open>status || 'all_not_deleted'\<close>\<close>

definition status_or_default :: "deal_status option \<Rightarrow> deal_status" where
  "status_or_default status = (case status of None \<Rightarrow> All_not_deleted | Some s \<Rightarrow> s)"

text \<open>\<^verbatim>\<open>additionalData?.pagination?.more_items_in_collection\<close>\<close>

definition more_items :: "response \<Rightarrow> js" where
  "more_items response =
     (case additional_data response of
        None \<Rightarrow> JUndefined
      | Some additionalData \<Rightarrow>
          (case pagination additionalData of
             None \<Rightarrow> JUndefined
           | Some p \<Rightarrow> more_items_in_collection p))"

text \<open>
  Lines 107-126: what one iteration does with the response it received. \<open>hasMore\<close>
  holds the truthiness of \<^verbatim>\<open>... || false\<close>, which is all the code tests.
\<close>

definition deals_page :: "bool option \<Rightarrow> response \<Rightarrow> loop_vars \<Rightarrow> loop_vars" where
  "deals_page count_only response v =
     (let v1 = (if truthy (data response) \<and> isArray (data response)
                then (if \<not> is_true count_only
                      then v\<lparr>allItems := allItems v @ elements (data response)\<rparr>
                      else v)
                else v);
          v2 = v1\<lparr>hasMore := truthy (js_or (more_items response) (JBool False))\<rparr>
      in if hasMore v2 then v2\<lparr>start := start v2 + limit\<rparr> else v2)"

text \<open>
  Lines 84-133: the loop. It returns the variables at exit, or the value a fetch threw,
  together with the trace extended by the calls it issued. The \<^verbatim>\<open>break\<close> at
  \<^verbatim>\<open>start >= 10000\<close> leaves the loop with \<open>hasMore\<close> as it is.
\<close>

function get_deals_loop ::
  "upstream \<Rightarrow> deal_status option \<Rightarrow> bool option \<Rightarrow> loop_vars \<Rightarrow> call list
     \<Rightarrow> (thrown + loop_vars) \<times> call list" where
  "get_deals_loop api status count_only v calls =
     (if hasMore v then
        (case getDeals api (start v) limit (status_or_default status) of
           Inl error \<Rightarrow>
             (Inl error, calls @ [GetDeals (start v) limit (status_or_default status)])
         | Inr response \<Rightarrow>
             (if 10000 \<le> start (deals_page count_only response (v\<lparr>pageCount := pageCount v + 1\<rparr>))
              then (Inr (deals_page count_only response (v\<lparr>pageCount := pageCount v + 1\<rparr>)),
                    calls @ [GetDeals (start v) limit (status_or_default status)])
              else get_deals_loop api status count_only
                     (deals_page count_only response (v\<lparr>pageCount := pageCount v + 1\<rparr>))
                     (calls @ [GetDeals (start v) limit (status_or_default status)])))
      else (Inr v, calls))"
  by pat_completeness auto
termination
  by (relation "measure (\<lambda>(api, status, count_only, v, calls).
                  (10000 - start v) + (if hasMore v then 1 else 0))")
     (auto simp: deals_page_def Let_def limit_def split: if_splits)

text \<open>
  Lines 135-174: what the handler makes of the loop's outcome. A value thrown inside the
  \<^verbatim>\<open>try\<close> block ends in the \<^verbatim>\<open>catch\<close>. Its second log line (line 166) evaluates
  \<^verbatim>\<open>JSON.stringify(error, null, 2)\<close>; when that throws, the handler throws; otherwise the
  \<^verbatim>\<open>catch\<close> builds the error result.
\<close>

definition deals_result ::
  "deal_status option \<Rightarrow> bool option \<Rightarrow> (thrown + loop_vars) \<times> call list
     \<Rightarrow> (thrown + tool_result) \<times> call list" where
  "deals_result status count_only outcome =
     (case outcome of
        (Inr v, calls) \<Rightarrow>
          (let totalCount = (if is_true count_only then start v else length (allItems v)) in
           if is_true count_only
           then (Inr (text_result (Stringified (JObj
                   [(''total_count'', JNum (int totalCount)),
                    (''status_filter'', JStr (status_string (status_or_default status))),
                    (''message'', JStr (''Found '' @ String_nat totalCount @ '' deals''))]))),
                 calls)
           else (Inr (text_result (Stringified (JObj
                   [(''total_count'', JNum (int (length (allItems v)))),
                    (''status_filter'', JStr (status_string (status_or_default status))),
                    (''deals'', JArr (allItems v))]))),
                 calls))
      | (Inl error, calls) \<Rightarrow>
          (case stringify error of
             Some thrown_by_stringify \<Rightarrow> (Inl thrown_by_stringify, calls)
           | None \<Rightarrow>
               (Inr (error_result [Fixed ''Error fetching deals: '',
                                   Inserted (getErrorMessage error)]),
                calls)))"

text \<open>Lines 73-77: the variables before the first iteration.\<close>

definition initial_vars :: loop_vars where
  "initial_vars = \<lparr>allItems = [], start = 0, hasMore = True, pageCount = 0\<rparr>"

text \<open>Lines 71-175: the handler.\<close>

definition get_deals ::
  "upstream \<Rightarrow> deal_status option \<Rightarrow> bool option \<Rightarrow> (thrown + tool_result) \<times> call list" where
  "get_deals api status count_only =
     deals_result status count_only (get_deals_loop api status count_only initial_vars [])"

section \<open>The single-call tools on deals\<close>

text \<open>get-deal (lines 185-204)\<close>

definition get_deal :: "upstream \<Rightarrow> int \<Rightarrow> (thrown + tool_result) \<times> call list" where
  "get_deal api dealId =
     (case getDeal api dealId of
        Inr response \<Rightarrow> Inr (text_result (Stringified (data response)))
      | Inl error \<Rightarrow>
          Inr (error_result [Fixed ''Error fetching deal '', Number dealId,
                             Fixed '': '', Inserted (getErrorMessage error)]),
      [GetDeal dealId])"

text \<open>
  \<^verbatim>\<open>v?.length\<close>: undefined on \<^verbatim>\<open>undefined\<close> and \<^verbatim>\<open>null\<close>, the length of an array or a
  string, an object's own \<^verbatim>\<open>length\<close> property, undefined on a number or a boolean.
\<close>

fun length_of :: "js \<Rightarrow> js" where
  "length_of (JArr xs) = JNum (int (length xs))"
| "length_of (JStr s) = JNum (int (length s))"
| "length_of (JObj fs) = (case map_of fs ''length'' of Some l \<Rightarrow> l | None \<Rightarrow> JUndefined)"
| "length_of v = JUndefined"

text \<open>\<^verbatim>\<open>response.additional_data?.next_cursor\<close>\<close>

definition next_cursor_of :: "response \<Rightarrow> js" where
  "next_cursor_of response =
     (case additional_data response of
        None \<Rightarrow> JUndefined
      | Some additionalData \<Rightarrow> next_cursor additionalData)"

text \<open>\<^verbatim>\<open>limit || 100\<close> on the optional number argument of get-deal-history.\<close>

definition limit_or_100 :: "int option \<Rightarrow> int" where
  "limit_or_100 lim = (case lim of None \<Rightarrow> 100 | Some l \<Rightarrow> if l \<noteq> 0 then l else 100)"

text \<open>get-deal-history (lines 215-254)\<close>

definition get_deal_history ::
  "upstream \<Rightarrow> int \<Rightarrow> int option \<Rightarrow> (thrown + tool_result) \<times> call list" where
  "get_deal_history api dealId lim =
     (case getDealChangelog api dealId JUndefined (limit_or_100 lim) of
        Inr response \<Rightarrow>
          Inr (text_result (Stringified (JObj
                 [(''deal_id'', JNum dealId),
                  (''history_count'', js_or (length_of (data response)) (JNum 0)),
                  (''next_cursor'', js_or (next_cursor_of response) JNull),
                  (''history'', js_or (data response) (JArr []))])))
      | Inl error \<Rightarrow>
          Inr (error_result [Fixed ''Error fetching deal '', Number dealId,
                             Fixed '' history: '', Inserted (getErrorMessage error)]),
      [GetDealChangelog dealId JUndefined (limit_or_100 lim)])"

text \<open>search-deals (lines 264-283)\<close>

definition search_deals :: "upstream \<Rightarrow> string \<Rightarrow> (thrown + tool_result) \<times> call list" where
  "search_deals api term =
     (case searchDeals api term of
        Inr response \<Rightarrow> Inr (text_result (Stringified (data response)))
      | Inl error \<Rightarrow>
          Inr (error_result [Fixed ''Error searching deals: '', Inserted (getErrorMessage error)]),
      [SearchDeals term])"

section \<open>get-persons\<close>

text \<open>Lines 320-333: what one iteration does with the response it received.\<close>

definition persons_page :: "response \<Rightarrow> loop_vars \<Rightarrow> loop_vars" where
  "persons_page response v =
     (let v1 = (if truthy (data response) \<and> isArray (data response)
                then v\<lparr>allItems := allItems v @ elements (data response)\<rparr>
                else v);
          v2 = v1\<lparr>hasMore := truthy (js_or (more_items response) (JBool False))\<rparr>
      in if hasMore v2 then v2\<lparr>start := start v2 + limit\<rparr> else v2)"

text \<open>Lines 302-340: the loop.\<close>

function get_persons_loop ::
  "upstream \<Rightarrow> loop_vars \<Rightarrow> call list \<Rightarrow> (thrown + loop_vars) \<times> call list" where
  "get_persons_loop api v calls =
     (if hasMore v then
        (case getPersons api (start v) limit of
           Inl error \<Rightarrow> (Inl error, calls @ [GetPersons (start v) limit])
         | Inr response \<Rightarrow>
             (if 10000 \<le> start (persons_page response (v\<lparr>pageCount := pageCount v + 1\<rparr>))
              then (Inr (persons_page response (v\<lparr>pageCount := pageCount v + 1\<rparr>)),
                    calls @ [GetPersons (start v) limit])
              else get_persons_loop api
                     (persons_page response (v\<lparr>pageCount := pageCount v + 1\<rparr>))
                     (calls @ [GetPersons (start v) limit])))
      else (Inr v, calls))"
  by pat_completeness auto
termination
  by (relation "measure (\<lambda>(api, v, calls). (10000 - start v) + (if hasMore v then 1 else 0))")
     (auto simp: persons_page_def Let_def limit_def split: if_splits)

text \<open>Lines 342-364: what the handler makes of the loop's outcome; then the handler.\<close>

definition persons_result ::
  "(thrown + loop_vars) \<times> call list \<Rightarrow> (thrown + tool_result) \<times> call list" where
  "persons_result outcome =
     (case outcome of
        (Inr v, calls) \<Rightarrow>
          (Inr (text_result (Stringified (JObj
                 [(''total_count'', JNum (int (length (allItems v)))),
                  (''persons'', JArr (allItems v))]))),
           calls)
      | (Inl error, calls) \<Rightarrow>
          (Inr (error_result [Fixed ''Error fetching persons: '',
                              Inserted (getErrorMessage error)]), calls))"

definition get_persons :: "upstream \<Rightarrow> (thrown + tool_result) \<times> call list" where
  "get_persons api = persons_result (get_persons_loop api initial_vars [])"

text \<open>get-person (lines 375-394)\<close>

definition get_person :: "upstream \<Rightarrow> int \<Rightarrow> (thrown + tool_result) \<times> call list" where
  "get_person api personId =
     (case getPerson api personId of
        Inr response \<Rightarrow> Inr (text_result (Stringified (data response)))
      | Inl error \<Rightarrow>
          Inr (error_result [Fixed ''Error fetching person '', Number personId,
                             Fixed '': '', Inserted (getErrorMessage error)]),
      [GetPerson personId])"

text \<open>search-persons (lines 404-423)\<close>

definition search_persons :: "upstream \<Rightarrow> string \<Rightarrow> (thrown + tool_result) \<times> call list" where
  "search_persons api term =
     (case searchPersons api term of
        Inr response \<Rightarrow> Inr (text_result (Stringified (data response)))
      | Inl error \<Rightarrow>
          Inr (error_result [Fixed ''Error searching persons: '',
                             Inserted (getErrorMessage error)]),
      [SearchPersons term])"

section \<open>get-organizations\<close>

text \<open>Lines 460-473: what one iteration does with the response it received.\<close>

definition organizations_page :: "response \<Rightarrow> loop_vars \<Rightarrow> loop_vars" where
  "organizations_page response v =
     (let v1 = (if truthy (data response) \<and> isArray (data response)
                then v\<lparr>allItems := allItems v @ elements (data response)\<rparr>
                else v);
          v2 = v1\<lparr>hasMore := truthy (js_or (more_items response) (JBool False))\<rparr>
      in if hasMore v2 then v2\<lparr>start := start v2 + limit\<rparr> else v2)"

text \<open>Lines 442-480: the loop.\<close>

function get_organizations_loop ::
  "upstream \<Rightarrow> loop_vars \<Rightarrow> call list \<Rightarrow> (thrown + loop_vars) \<times> call list" where
  "get_organizations_loop api v calls =
     (if hasMore v then
        (case getOrganizations api (start v) limit of
           Inl error \<Rightarrow> (Inl error, calls @ [GetOrganizations (start v) limit])
         | Inr response \<Rightarrow>
             (if 10000 \<le> start (organizations_page response (v\<lparr>pageCount := pageCount v + 1\<rparr>))
              then (Inr (organizations_page response (v\<lparr>pageCount := pageCount v + 1\<rparr>)),
                    calls @ [GetOrganizations (start v) limit])
              else get_organizations_loop api
                     (organizations_page response (v\<lparr>pageCount := pageCount v + 1\<rparr>))
                     (calls @ [GetOrganizations (start v) limit])))
      else (Inr v, calls))"
  by pat_completeness auto
termination
  by (relation "measure (\<lambda>(api, v, calls). (10000 - start v) + (if hasMore v then 1 else 0))")
     (auto simp: organizations_page_def Let_def limit_def split: if_splits)

text \<open>Lines 482-504: what the handler makes of the loop's outcome; then the handler.\<close>

definition organizations_result ::
  "(thrown + loop_vars) \<times> call list \<Rightarrow> (thrown + tool_result) \<times> call list" where
  "organizations_result outcome =
     (case outcome of
        (Inr v, calls) \<Rightarrow>
          (Inr (text_result (Stringified (JObj
                 [(''total_count'', JNum (int (length (allItems v)))),
                  (''organizations'', JArr (allItems v))]))),
           calls)
      | (Inl error, calls) \<Rightarrow>
          (Inr (error_result [Fixed ''Error fetching organizations: '',
                              Inserted (getErrorMessage error)]), calls))"

definition get_organizations :: "upstream \<Rightarrow> (thrown + tool_result) \<times> call list" where
  "get_organizations api = organizations_result (get_organizations_loop api initial_vars [])"

text \<open>get-organization (lines 515-534)\<close>

definition get_organization :: "upstream \<Rightarrow> int \<Rightarrow> (thrown + tool_result) \<times> call list" where
  "get_organization api organizationId =
     (case getOrganization api organizationId of
        Inr response \<Rightarrow> Inr (text_result (Stringified (data response)))
      | Inl error \<Rightarrow>
          Inr (error_result [Fixed ''Error fetching organization '', Number organizationId,
                             Fixed '': '', Inserted (getErrorMessage error)]),
      [GetOrganization organizationId])"

text \<open>search-organizations (lines 544-563)\<close>

definition search_organizations :: "upstream \<Rightarrow> string \<Rightarrow> (thrown + tool_result) \<times> call list" where
  "search_organizations api term =
     (case searchOrganization api term of
        Inr response \<Rightarrow> Inr (text_result (Stringified (data response)))
      | Inl error \<Rightarrow>
          Inr (error_result [Fixed ''Error searching organizations: '',
                             Inserted (getErrorMessage error)]),
      [SearchOrganization term])"

section \<open>Pipelines and stages\<close>

text \<open>\<^verbatim>\<open>response.data\<close> of the pipelines call, as the value \<^verbatim>\<open>JSON.stringify\<close> receives.\<close>

definition pipelines_js :: "pipelines_response \<Rightarrow> js" where
  "pipelines_js response =
     (case pipelines_data response of None \<Rightarrow> JUndefined | Some ps \<Rightarrow> JArr (map JObj ps))"

text \<open>get-pipelines (lines 571-590)\<close>

definition get_pipelines :: "upstream \<Rightarrow> (thrown + tool_result) \<times> call list" where
  "get_pipelines api =
     (case getPipelines api of
        Inr response \<Rightarrow> Inr (text_result (Stringified (pipelines_js response)))
      | Inl error \<Rightarrow>
          Inr (error_result [Fixed ''Error fetching pipelines: '',
                             Inserted (getErrorMessage error)]),
      [GetPipelines])"

text \<open>get-pipeline (lines 600-619)\<close>

definition get_pipeline :: "upstream \<Rightarrow> int \<Rightarrow> (thrown + tool_result) \<times> call list" where
  "get_pipeline api pipelineId =
     (case getPipeline api pipelineId of
        Inr response \<Rightarrow> Inr (text_result (Stringified (data response)))
      | Inl error \<Rightarrow>
          Inr (error_result [Fixed ''Error fetching pipeline '', Number pipelineId,
                             Fixed '': '', Inserted (getErrorMessage error)]),
      [GetPipeline pipelineId])"

text \<open>
  \<^verbatim>\<open>o.k\<close> on a value that is neither \<^verbatim>\<open>null\<close> nor \<^verbatim>\<open>undefined\<close>, for the property names
  get-stages reads (\<^verbatim>\<open>id\<close>, \<^verbatim>\<open>name\<close>, \<^verbatim>\<open>success\<close>, \<^verbatim>\<open>data\<close>): an object's own
  property, undefined on anything else.
\<close>

fun property :: "js \<Rightarrow> string \<Rightarrow> js" where
  "property (JObj fs) k = (case map_of fs k of Some v \<Rightarrow> v | None \<Rightarrow> JUndefined)"
| "property v k = JUndefined"

text \<open>
  \<^verbatim>\<open>{...stage}\<close>: the own enumerable properties of the value. An array and a string
  spread into their indices; \<^verbatim>\<open>null\<close>, a number and a boolean into nothing.
\<close>

fun spread :: "js \<Rightarrow> (string \<times> js) list" where
  "spread (JObj fs) = fs"
| "spread (JArr xs) = zip (map String_nat [0..<length xs]) xs"
| "spread (JStr s) = zip (map String_nat [0..<length s]) (map (\<lambda>c. JStr [c]) s)"
| "spread v = []"

text \<open>Lines 642-645: \<^verbatim>\<open>{...stage, pipeline_name: pipeline.name}\<close>\<close>

definition tag_stage :: "pipeline \<Rightarrow> js \<Rightarrow> js" where
  "tag_stage pipeline stage =
     JObj (AList.update ''pipeline_name'' (property (JObj pipeline) ''name'') (spread stage))"

text \<open>
  Lines 638-646, the inner \<^verbatim>\<open>try\<close> block for one pipeline: the stages it pushes, or what
  it throws. \<^verbatim>\<open>stagesData.success\<close> throws on \<^verbatim>\<open>null\<close>; \<^verbatim>\<open>stagesData.data.map\<close> is not
  a function unless \<^verbatim>\<open>data\<close> is an array.
\<close>

definition pipeline_stages :: "upstream \<Rightarrow> pipeline \<Rightarrow> thrown + js list" where
  "pipeline_stages api pipeline =
     (case fetchStages api (property (JObj pipeline) ''id'') of
        Inl e \<Rightarrow> Inl e
      | Inr stagesData \<Rightarrow>
          (if stagesData = JNull \<or> stagesData = JUndefined then Inl TypeError
           else if truthy (property stagesData ''success'') \<and> truthy (property stagesData ''data'')
           then (if isArray (property stagesData ''data'')
                 then Inr (map (tag_stage pipeline) (elements (property stagesData ''data'')))
                 else Inl TypeError)
           else Inr []))"

text \<open>
  Lines 635-651: the loop over the pipelines. The inner \<^verbatim>\<open>catch\<close> logs and goes on
  with the next pipeline.
\<close>

fun stages_loop ::
  "upstream \<Rightarrow> pipeline list \<Rightarrow> js list \<Rightarrow> call list \<Rightarrow> js list \<times> call list" where
  "stages_loop api [] allStages calls = (allStages, calls)"
| "stages_loop api (pipeline # rest) allStages calls =
     (case pipeline_stages api pipeline of
        Inr pipelineStages \<Rightarrow>
          stages_loop api rest (allStages @ pipelineStages)
            (calls @ [FetchStages (property (JObj pipeline) ''id'')])
      | Inl e \<Rightarrow>
          stages_loop api rest allStages (calls @ [FetchStages (property (JObj pipeline) ''id'')]))"

text \<open>get-stages (lines 627-669). \<^verbatim>\<open>pipelinesResponse.data || []\<close> is the empty list when
  \<^verbatim>\<open>data\<close> is absent.\<close>

definition get_stages :: "upstream \<Rightarrow> (thrown + tool_result) \<times> call list" where
  "get_stages api =
     (case getPipelines api of
        Inl error \<Rightarrow>
          (Inr (error_result [Fixed ''Error fetching stages: '',
                              Inserted (getErrorMessage error)]), [GetPipelines])
      | Inr pipelinesResponse \<Rightarrow>
          (case stages_loop api
                  (case pipelines_data pipelinesResponse of None \<Rightarrow> [] | Some ps \<Rightarrow> ps)
                  [] [GetPipelines] of
             (allStages, calls) \<Rightarrow> (Inr (text_result (Stringified (JArr allStages))), calls)))"

section \<open>Search\<close>

text \<open>search-leads (lines 679-698)\<close>

definition search_leads :: "upstream \<Rightarrow> string \<Rightarrow> (thrown + tool_result) \<times> call list" where
  "search_leads api term =
     (case searchLeads api term of
        Inr response \<Rightarrow> Inr (text_result (Stringified (data response)))
      | Inl error \<Rightarrow>
          Inr (error_result [Fixed ''Error searching leads: '', Inserted (getErrorMessage error)]),
      [SearchLeads term])"

text \<open>search-all (lines 709-731)\<close>

definition search_all :: "upstream \<Rightarrow> string \<Rightarrow> string option \<Rightarrow> (thrown + tool_result) \<times> call list" where
  "search_all api term itemTypes =
     (case searchItem api term itemTypes of
        Inr response \<Rightarrow> Inr (text_result (Stringified (data response)))
      | Inl error \<Rightarrow>
          Inr (error_result [Fixed ''Error performing search: '',
                             Inserted (getErrorMessage error)]),
      [SearchItem term itemTypes])"

section \<open>The registry\<close>

text \<open>
  The tools registered with \<^verbatim>\<open>server.tool\<close>, each with the arguments its zod schema
  admits, and the handler each name is bound to. A number argument is modelled as an
  integer: the handlers pass it on and put it into a template string, and never compute
  with it.
\<close>

datatype tool_call =
    Get_deals "deal_status option" "bool option"
  | Get_deal int
  | Get_deal_history int "int option"
  | Search_deals string
  | Get_persons
  | Get_person int
  | Search_persons string
  | Get_organizations
  | Get_organization int
  | Search_organizations string
  | Get_pipelines
  | Get_pipeline int
  | Get_stages
  | Search_leads string
  | Search_all string "string option"

fun handle :: "upstream \<Rightarrow> tool_call \<Rightarrow> (thrown + tool_result) \<times> call list" where
  "handle api (Get_deals status count_only) = get_deals api status count_only"
| "handle api (Get_deal dealId) = get_deal api dealId"
| "handle api (Get_deal_history dealId lim) = get_deal_history api dealId lim"
| "handle api (Search_deals term) = search_deals api term"
| "handle api Get_persons = get_persons api"
| "handle api (Get_person personId) = get_person api personId"
| "handle api (Search_persons term) = search_persons api term"
| "handle api Get_organizations = get_organizations api"
| "handle api (Get_organization organizationId) = get_organization api organizationId"
| "handle api (Search_organizations term) = search_organizations api term"
| "handle api Get_pipelines = get_pipelines api"
| "handle api (Get_pipeline pipelineId) = get_pipeline api pipelineId"
| "handle api Get_stages = get_stages api"
| "handle api (Search_leads term) = search_leads api term"
| "handle api (Search_all term itemTypes) = search_all api term itemTypes"

text \<open>What the upstream throws at a call, if it rejects it.\<close>

definition thrown_of :: "thrown + 'a \<Rightarrow> thrown option" where
  "thrown_of r = (case r of Inl e \<Rightarrow> Some e | Inr x \<Rightarrow> None)"

fun failure :: "upstream \<Rightarrow> call \<Rightarrow> thrown option" where
  "failure api (GetDeals s l st) = thrown_of (getDeals api s l st)"
| "failure api (GetDeal i) = thrown_of (getDeal api i)"
| "failure api (GetDealChangelog i c l) = thrown_of (getDealChangelog api i c l)"
| "failure api (SearchDeals t) = thrown_of (searchDeals api t)"
| "failure api (GetPersons s l) = thrown_of (getPersons api s l)"
| "failure api (GetPerson i) = thrown_of (getPerson api i)"
| "failure api (SearchPersons t) = thrown_of (searchPersons api t)"
| "failure api (GetOrganizations s l) = thrown_of (getOrganizations api s l)"
| "failure api (GetOrganization i) = thrown_of (getOrganization api i)"
| "failure api (SearchOrganization t) = thrown_of (searchOrganization api t)"
| "failure api GetPipelines = thrown_of (getPipelines api)"
| "failure api (GetPipeline i) = thrown_of (getPipeline api i)"
| "failure api (FetchStages i) = thrown_of (fetchStages api i)"
| "failure api (SearchLeads t) = thrown_of (searchLeads api t)"
| "failure api (SearchItem t ts) = thrown_of (searchItem api t ts)"

text \<open>The calls made through the SDK's API clients; the stage fetch is a raw \<^verbatim>\<open>fetch\<close>.\<close>

fun sdk_call :: "call \<Rightarrow> bool" where
  "sdk_call (FetchStages i) = False"
| "sdk_call c = True"

text \<open>What each handler's \<^verbatim>\<open>catch\<close> block writes before the error's own message.\<close>

fun error_prefix :: "tool_call \<Rightarrow> piece list" where
  "error_prefix (Get_deals status count_only) = [Fixed ''Error fetching deals: '']"
| "error_prefix (Get_deal dealId) =
     [Fixed ''Error fetching deal '', Number dealId, Fixed '': '']"
| "error_prefix (Get_deal_history dealId lim) =
     [Fixed ''Error fetching deal '', Number dealId, Fixed '' history: '']"
| "error_prefix (Search_deals term) = [Fixed ''Error searching deals: '']"
| "error_prefix Get_persons = [Fixed ''Error fetching persons: '']"
| "error_prefix (Get_person personId) =
     [Fixed ''Error fetching person '', Number personId, Fixed '': '']"
| "error_prefix (Search_persons term) = [Fixed ''Error searching persons: '']"
| "error_prefix Get_organizations = [Fixed ''Error fetching organizations: '']"
| "error_prefix (Get_organization organizationId) =
     [Fixed ''Error fetching organization '', Number organizationId, Fixed '': '']"
| "error_prefix (Search_organizations term) = [Fixed ''Error searching organizations: '']"
| "error_prefix Get_pipelines = [Fixed ''Error fetching pipelines: '']"
| "error_prefix (Get_pipeline pipelineId) =
     [Fixed ''Error fetching pipeline '', Number pipelineId, Fixed '': '']"
| "error_prefix Get_stages = [Fixed ''Error fetching stages: '']"
| "error_prefix (Search_leads term) = [Fixed ''Error searching leads: '']"
| "error_prefix (Search_all term itemTypes) = [Fixed ''Error performing search: '']"

text \<open>
  The call each handler issues first, with the arguments it was given: for the three
  paginated tools the first page, for get-stages the pipelines call.
\<close>

fun first_call :: "tool_call \<Rightarrow> call" where
  "first_call (Get_deals status count_only) = GetDeals 0 500 (status_or_default status)"
| "first_call (Get_deal dealId) = GetDeal dealId"
| "first_call (Get_deal_history dealId lim) = GetDealChangelog dealId JUndefined (limit_or_100 lim)"
| "first_call (Search_deals term) = SearchDeals term"
| "first_call Get_persons = GetPersons 0 500"
| "first_call (Get_person personId) = GetPerson personId"
| "first_call (Search_persons term) = SearchPersons term"
| "first_call Get_organizations = GetOrganizations 0 500"
| "first_call (Get_organization organizationId) = GetOrganization organizationId"
| "first_call (Search_organizations term) = SearchOrganization term"
| "first_call Get_pipelines = GetPipelines"
| "first_call (Get_pipeline pipelineId) = GetPipeline pipelineId"
| "first_call Get_stages = GetPipelines"
| "first_call (Search_leads term) = SearchLeads term"
| "first_call (Search_all term itemTypes) = SearchItem term itemTypes"

text \<open>
  The tools whose \<^verbatim>\<open>catch\<close> block evaluates \<^verbatim>\<open>JSON.stringify(error, null, 2)\<close>: get-deals
  alone.
\<close>

fun stringifies_error :: "tool_call \<Rightarrow> bool" where
  "stringifies_error (Get_deals status count_only) = True"
| "stringifies_error t = False"

text \<open>
  A handler's outcome contains the upstream's failures:
  \<^item> the handler has issued its first call;
  \<^item> if an SDK call it issued was rejected, its outcome is the error result built from
    what that call threw (for a tool that stringifies the error: when that returns);
  \<^item> it returns a result (for a tool that stringifies the error: when that returns on
    whatever its calls threw).
\<close>

definition contained :: "upstream \<Rightarrow> tool_call \<Rightarrow> (thrown + tool_result) \<times> call list \<Rightarrow> bool" where
  "contained api t outcome \<longleftrightarrow>
     snd outcome \<noteq> [] \<and> hd (snd outcome) = first_call t
     \<and> (\<forall>c e. c \<in> set (snd outcome) \<and> sdk_call c \<and> failure api c = Some e
               \<and> (stringifies_error t \<longrightarrow> stringify e = None) \<longrightarrow>
            fst outcome = Inr (error_result (error_prefix t @ [Inserted (getErrorMessage e)])))
     \<and> ((stringifies_error t \<longrightarrow>
            (\<forall>c e. c \<in> set (snd outcome) \<and> failure api c = Some e \<longrightarrow> stringify e = None)) \<longrightarrow>
          (\<exists>r. fst outcome = Inr r))"

text \<open>
  Reading a result back: the value of a property of the JSON object a result's text
  holds (undefined when there is none), and the \<^verbatim>\<open>terminated_early\<close> property of a
  handler's result.
\<close>

definition result_field :: "tool_result \<Rightarrow> string \<Rightarrow> js" where
  "result_field r k =
     (case content r of
        [item] \<Rightarrow> (case text' item of Stringified v \<Rightarrow> property v k | Template m \<Rightarrow> JUndefined)
      | _ \<Rightarrow> JUndefined)"

definition terminated_early :: "(thrown + tool_result) \<times> call list \<Rightarrow> js" where
  "terminated_early outcome =
     (case fst outcome of Inr r \<Rightarrow> result_field r ''terminated_early'' | Inl e \<Rightarrow> JUndefined)"

section \<open>The three loops as one\<close>

text \<open>
  The loops of get-deals, get-persons and get-organizations differ in the call they
  issue and in the \<^verbatim>\<open>count_only\<close> test, which only get-deals has. \<open>page_loop\<close> is
  that loop over any fetch; the loops above are instances of it (lemmas
  \<open>get_deals_loop_eq\<close>, \<open>get_persons_loop_eq\<close>, \<open>get_organizations_loop_eq\<close>).
\<close>

function page_loop ::
  "(nat \<Rightarrow> thrown + response) \<Rightarrow> (nat \<Rightarrow> call) \<Rightarrow> bool option \<Rightarrow> loop_vars \<Rightarrow> call list
     \<Rightarrow> (thrown + loop_vars) \<times> call list" where
  "page_loop fetch mk count_only v calls =
     (if hasMore v then
        (case fetch (start v) of
           Inl error \<Rightarrow> (Inl error, calls @ [mk (start v)])
         | Inr response \<Rightarrow>
             (if 10000 \<le> start (deals_page count_only response (v\<lparr>pageCount := pageCount v + 1\<rparr>))
              then (Inr (deals_page count_only response (v\<lparr>pageCount := pageCount v + 1\<rparr>)),
                    calls @ [mk (start v)])
              else page_loop fetch mk count_only
                     (deals_page count_only response (v\<lparr>pageCount := pageCount v + 1\<rparr>))
                     (calls @ [mk (start v)])))
      else (Inr v, calls))"
  by pat_completeness auto
termination
  by (relation "measure (\<lambda>(fetch, mk, count_only, v, calls).
                  (10000 - start v) + (if hasMore v then 1 else 0))")
     (auto simp: deals_page_def Let_def limit_def split: if_splits)

text \<open>The items of the page at an offset.\<close>

definition page_items :: "(nat \<Rightarrow> thrown + response) \<Rightarrow> nat \<Rightarrow> js list" where
  "page_items fetch s =
     (case fetch s of Inl e \<Rightarrow> [] | Inr response \<Rightarrow> elements (data response))"

text \<open>
  What a run of the loop from a state with \<open>hasMore\<close> does, in full: it issues \<open>n\<close>
  calls at offsets \<open>limit\<close> apart; all but the last resolve and report more items, below
  the ceiling; the last one throws, or reports no more items, or reaches the ceiling.
\<close>

definition loop_run ::
  "(nat \<Rightarrow> thrown + response) \<Rightarrow> (nat \<Rightarrow> call) \<Rightarrow> bool option \<Rightarrow> loop_vars \<Rightarrow> call list
     \<Rightarrow> nat \<Rightarrow> bool" where
  "loop_run fetch mk co v cs n \<longleftrightarrow>
     0 < n
     \<and> snd (page_loop fetch mk co v cs) = cs @ map (\<lambda>i. mk (start v + limit * i)) [0..<n]
     \<and> (\<forall>i. i < n - 1 \<longrightarrow>
          (\<exists>r. fetch (start v + limit * i) = Inr r \<and> truthy (more_items r))
          \<and> start v + limit * (i + 1) < 10000)
     \<and> (case fst (page_loop fetch mk co v cs) of
          Inl e \<Rightarrow> fetch (start v + limit * (n - 1)) = Inl e
        | Inr v' \<Rightarrow>
            (\<exists>r. fetch (start v + limit * (n - 1)) = Inr r \<and> hasMore v' = truthy (more_items r))
            \<and> start v' = (if hasMore v' then start v + limit * n else start v + limit * (n - 1))
            \<and> (hasMore v' \<longrightarrow> 10000 \<le> start v')
            \<and> pageCount v' = pageCount v + n
            \<and> allItems v' =
                (if is_true co then allItems v
                 else allItems v @ concat (map (\<lambda>i. page_items fetch (start v + limit * i)) [0..<n])))"

section \<open>Example upstreams\<close>

text \<open>An upstream on which every call resolves to a response with nothing in it.\<close>

definition no_response :: response where
  "no_response = \<lparr>data = JUndefined, additional_data = None\<rparr>"

definition idle :: upstream where
  "idle = \<lparr>getDeals = (\<lambda>s l st. Inr no_response),
     getDeal = (\<lambda>i. Inr no_response),
     getDealChangelog = (\<lambda>i c l. Inr no_response),
     searchDeals = (\<lambda>t. Inr no_response),
     getPersons = (\<lambda>s l. Inr no_response),
     getPerson = (\<lambda>i. Inr no_response),
     searchPersons = (\<lambda>t. Inr no_response),
     getOrganizations = (\<lambda>s l. Inr no_response),
     getOrganization = (\<lambda>i. Inr no_response),
     searchOrganization = (\<lambda>t. Inr no_response),
     getPipelines = Inr \<lparr>pipelines_data = None\<rparr>,
     getPipeline = (\<lambda>i. Inr no_response),
     fetchStages = (\<lambda>i. Inr JNull),
     searchLeads = (\<lambda>t. Inr no_response),
     searchItem = (\<lambda>t ts. Inr no_response)\<rparr>"

text \<open>A page of items with its pagination flag.\<close>

definition page_response :: "js list \<Rightarrow> bool \<Rightarrow> response" where
  "page_response items flag =
     \<lparr>data = JArr items,
      additional_data = Some \<lparr>pagination = Some \<lparr>more_items_in_collection = JBool flag\<rparr>,
                              next_cursor = JUndefined\<rparr>\<rparr>"

text \<open>An upstream whose every page reports more items.\<close>

definition endless :: upstream where
  "endless = idle
     \<lparr>getDeals := (\<lambda>s l st. Inr (page_response [JNum (int s)] True)),
      getPersons := (\<lambda>s l. Inr (page_response [JNum (int s)] True)),
      getOrganizations := (\<lambda>s l. Inr (page_response [JNum (int s)] True))\<rparr>"

text \<open>
  An error with a reference to itself, as \<^verbatim>\<open>const e = new Error("socket hang up"); e.self = e\<close>
  makes one: \<^verbatim>\<open>JSON.stringify\<close> throws a \<^verbatim>\<open>TypeError\<close> on it.
\<close>

definition circular_structure :: thrown where
  "circular_structure =
     Thrown (Some ''Converting circular structure to JSON'')
       ''TypeError: Converting circular structure to JSON'' None"

definition cyclic_error :: thrown where
  "cyclic_error = Thrown (Some ''socket hang up'') ''Error: socket hang up'' (Some circular_structure)"

text \<open>
  An upstream that rejects the third page of deals and the third page of persons with
  that error.
\<close>

definition failing_page :: upstream where
  "failing_page = idle
     \<lparr>getDeals := (\<lambda>s l st. if s = 1000 then Inl cyclic_error
                             else Inr (page_response [JNum (int s)] True)),
      getPersons := (\<lambda>s l. if s = 1000 then Inl cyclic_error
                           else Inr (page_response [JNum (int s)] True))\<rparr>"

text \<open>An upstream that rejects the third page of deals with an error that serialises.\<close>

definition unavailable :: upstream where
  "unavailable = idle
     \<lparr>getDeals := (\<lambda>s l st. if s = 1000 then Inl (ErrorWithMessage ''Service Unavailable'')
                             else Inr (page_response [JNum (int s)] True))\<rparr>"

text \<open>An upstream that has no deal: every \<^verbatim>\<open>getDeal\<close> is rejected with the HTTP client's 404 error.\<close>

definition deal_not_found :: upstream where
  "deal_not_found = idle
     \<lparr>getDeal := (\<lambda>i. Inl (ErrorWithMessage ''Request failed with status code 404''))\<rparr>"

text \<open>
  An upstream that serves the deals \<open>xs\<close> in pages, with the pagination flag telling
  whether records remain beyond the page.
\<close>

definition paged :: "js list \<Rightarrow> upstream" where
  "paged xs = idle
     \<lparr>getDeals := (\<lambda>s l st. Inr (page_response (take l (drop s xs)) (s + l < length xs)))\<rparr>"

text \<open>A dataset of \<open>n\<close> distinct records.\<close>

definition numbered :: "nat \<Rightarrow> js list" where
  "numbered n = map (\<lambda>i. JNum (int i)) [0..<n]"

text \<open>
  A page without \<^verbatim>\<open>data\<close> whose pagination reports more items, and an upstream that
  answers with it at offset 0 and with a final page of one deal after that.
\<close>

definition no_data_page :: response where
  "no_data_page =
     \<lparr>data = JUndefined,
      additional_data = Some \<lparr>pagination = Some \<lparr>more_items_in_collection = JBool True\<rparr>,
                              next_cursor = JUndefined\<rparr>\<rparr>"

definition gap :: upstream where
  "gap = idle
     \<lparr>getDeals := (\<lambda>s l st. if s = 0 then Inr no_data_page
                             else Inr (page_response [JNum 1] False))\<rparr>"

text \<open>
  A page of two deals without \<^verbatim>\<open>additional_data\<close>, and an upstream that always answers
  with it.
\<close>

definition bare_page :: response where
  "bare_page = \<lparr>data = JArr [JNum 1, JNum 2], additional_data = None\<rparr>"

definition bare :: upstream where
  "bare = idle \<lparr>getDeals := (\<lambda>s l st. Inr bare_page)\<rparr>"

text \<open>
  Two pipelines, and an upstream on which the stage fetch of the first is rejected and
  that of the second resolves to two stages.
\<close>

definition sales :: pipeline where
  "sales = [(''id'', JNum 1), (''name'', JStr ''Sales'')]"

definition renewals :: pipeline where
  "renewals = [(''id'', JNum 2), (''name'', JStr ''Renewals'')]"

definition one_pipeline_down :: upstream where
  "one_pipeline_down = idle
     \<lparr>getPipelines := Inr \<lparr>pipelines_data = Some [sales, renewals]\<rparr>,
      fetchStages := (\<lambda>i. if i = JNum 1 then Inl (ErrorWithMessage ''fetch failed'')
                           else Inr (JObj [(''success'', JBool True),
                                           (''data'', JArr [JObj [(''id'', JNum 10), (''name'', JStr ''Contacted'')],
                                                            JObj [(''id'', JNum 11), (''name'', JStr ''Signed'')]])]))\<rparr>"

section \<open>Properties\<close>

subsection \<open>The loops\<close>

declare page_loop.simps [simp del] get_deals_loop.simps [simp del]
  get_persons_loop.simps [simp del] get_organizations_loop.simps [simp del]

lemma persons_page_eq: "persons_page response v = deals_page None response v"
  by (simp add: persons_page_def deals_page_def is_true_def)

lemma organizations_page_eq: "organizations_page response v = deals_page None response v"
  by (simp add: organizations_page_def deals_page_def is_true_def)

lemma get_deals_loop_eq:
  "get_deals_loop api status count_only v calls =
     page_loop (\<lambda>s. getDeals api s limit (status_or_default status))
       (\<lambda>s. GetDeals s limit (status_or_default status)) count_only v calls"
proof (induction api status count_only v calls rule: get_deals_loop.induct)
  case (1 api status count_only v calls)
  show ?case
    apply (subst get_deals_loop.simps)
    apply (subst page_loop.simps)
    using 1 by (auto split: sum.splits)
qed

lemma get_persons_loop_eq:
  "get_persons_loop api v calls =
     page_loop (\<lambda>s. getPersons api s limit) (\<lambda>s. GetPersons s limit) None v calls"
proof (induction api v calls rule: get_persons_loop.induct)
  case (1 api v calls)
  show ?case
    apply (subst get_persons_loop.simps)
    apply (subst page_loop.simps)
    using 1 by (auto simp: persons_page_eq [symmetric] split: sum.splits)
qed

lemma get_organizations_loop_eq:
  "get_organizations_loop api v calls =
     page_loop (\<lambda>s. getOrganizations api s limit) (\<lambda>s. GetOrganizations s limit) None v calls"
proof (induction api v calls rule: get_organizations_loop.induct)
  case (1 api v calls)
  show ?case
    apply (subst get_organizations_loop.simps)
    apply (subst page_loop.simps)
    using 1 by (auto simp: organizations_page_eq [symmetric] split: sum.splits)
qed

lemma deals_page_fields:
  "hasMore (deals_page co r v) = truthy (more_items r)"
  "start (deals_page co r v) = (if truthy (more_items r) then start v + limit else start v)"
  "pageCount (deals_page co r v) = pageCount v"
  "allItems (deals_page co r v) =
     (if is_true co then allItems v else allItems v @ elements (data r))"
  by (cases "data r"; simp add: deals_page_def Let_def js_or_def)+

lemma page_loop_run: "hasMore v \<Longrightarrow> \<exists>n. loop_run fetch mk co v cs n"
proof (induction fetch mk co v cs rule: page_loop.induct)
  case (1 fetch mk co v cs)
  note more = \<open>hasMore v\<close>
  show ?case
  proof (cases "fetch (start v)")
    case (Inl e)
    with more have "page_loop fetch mk co v cs = (Inl e, cs @ [mk (start v)])"
      by (subst page_loop.simps) simp
    with Inl have "loop_run fetch mk co v cs 1"
      by (simp add: loop_run_def)
    then show ?thesis ..
  next
    case (Inr r)
    define v1 where "v1 = deals_page co r (v\<lparr>pageCount := pageCount v + 1\<rparr>)"
    have fields:
      "hasMore v1 = truthy (more_items r)"
      "start v1 = (if truthy (more_items r) then start v + limit else start v)"
      "pageCount v1 = pageCount v + 1"
      "allItems v1 = (if is_true co then allItems v else allItems v @ elements (data r))"
      by (simp_all add: v1_def deals_page_fields)
    have first: "page_items fetch (start v) = elements (data r)"
      using Inr by (simp add: page_items_def)
    show ?thesis
    proof (cases "10000 \<le> start v1 \<or> \<not> hasMore v1")
      case True
      with more Inr have "page_loop fetch mk co v cs = (Inr v1, cs @ [mk (start v)])"
        unfolding v1_def by (subst page_loop.simps, subst page_loop.simps) auto
      with Inr True have "loop_run fetch mk co v cs 1"
        by (auto simp: loop_run_def fields first)
      then show ?thesis ..
    next
      case False
      then have below: "\<not> 10000 \<le> start v1" and more1: "hasMore v1"
        by auto
      from "1.IH" [OF more Inr below [unfolded v1_def] more1 [unfolded v1_def]]
      obtain n where run: "loop_run fetch mk co v1 (cs @ [mk (start v)]) n"
        unfolding v1_def ..
      from more Inr below
      have unfold: "page_loop fetch mk co v cs = page_loop fetch mk co v1 (cs @ [mk (start v)])"
        unfolding v1_def by (subst page_loop.simps) simp
      from more1 have flag: "truthy (more_items r)"
        by (simp add: fields)
      then have start1: "start v1 = start v + limit"
        by (simp add: fields)
      have shift: "\<And>i. start v + limit + limit * i = start v + limit * Suc i"
        by simp
      from run have n: "0 < n" by (simp add: loop_run_def)
      have "loop_run fetch mk co v cs (Suc n)"
        unfolding loop_run_def unfold
      proof (intro conjI allI impI)
        show "0 < Suc n" by simp
        show "snd (page_loop fetch mk co v1 (cs @ [mk (start v)])) =
                cs @ map (\<lambda>i. mk (start v + limit * i)) [0..<Suc n]"
          using run by (simp add: loop_run_def start1 shift map_upt_Suc del: upt_Suc)
      next
        fix i assume "i < Suc n - 1"
        then have i: "i < n" by simp
        show "\<exists>r. fetch (start v + limit * i) = Inr r \<and> truthy (more_items r)"
        proof (cases i)
          case 0
          with Inr flag show ?thesis by simp
        next
          case (Suc j)
          with i have "j < n - 1" by simp
          with run have "\<exists>r. fetch (start v1 + limit * j) = Inr r \<and> truthy (more_items r)"
            by (simp add: loop_run_def)
          with Suc show ?thesis by (simp add: start1 shift)
        qed
        show "start v + limit * (i + 1) < 10000"
        proof (cases i)
          case 0
          with below start1 show ?thesis by simp
        next
          case (Suc j)
          with i have "j < n - 1" by simp
          with run have "start v1 + limit * (j + 1) < 10000"
            by (simp add: loop_run_def)
          with Suc show ?thesis by (simp add: start1)
        qed
      next
        from n have last: "start v1 + limit * (n - 1) = start v + limit * (Suc n - 1)"
          by (cases n) (simp_all add: start1)
        have total: "start v1 + limit * n = start v + limit * Suc n"
          by (simp add: start1)
        have items: "\<not> is_true co \<Longrightarrow>
            allItems v1 @ concat (map (\<lambda>i. page_items fetch (start v1 + limit * i)) [0..<n]) =
            allItems v @ concat (map (\<lambda>i. page_items fetch (start v + limit * i)) [0..<Suc n])"
          using flag by (simp add: fields first start1 shift map_upt_Suc del: upt_Suc)
        have pages: "pageCount v1 + n = pageCount v + Suc n"
          by (simp add: fields)
        from run
        have tail: "case fst (page_loop fetch mk co v1 (cs @ [mk (start v)])) of
                Inl e \<Rightarrow> fetch (start v1 + limit * (n - 1)) = Inl e
              | Inr v' \<Rightarrow>
                  (\<exists>r. fetch (start v1 + limit * (n - 1)) = Inr r
                       \<and> hasMore v' = truthy (more_items r))
                  \<and> start v' = (if hasMore v' then start v1 + limit * n
                                 else start v1 + limit * (n - 1))
                  \<and> (hasMore v' \<longrightarrow> 10000 \<le> start v')
                  \<and> pageCount v' = pageCount v1 + n
                  \<and> allItems v' =
                      (if is_true co then allItems v1
                       else allItems v1 @ concat (map (\<lambda>i. page_items fetch (start v1 + limit * i))
                                                  [0..<n]))"
          by (simp add: loop_run_def)
        have same: "is_true co \<Longrightarrow> allItems v1 = allItems v"
          by (simp add: fields)
        show "case fst (page_loop fetch mk co v1 (cs @ [mk (start v)])) of
                Inl e \<Rightarrow> fetch (start v + limit * (Suc n - 1)) = Inl e
              | Inr v' \<Rightarrow>
                  (\<exists>r. fetch (start v + limit * (Suc n - 1)) = Inr r
                       \<and> hasMore v' = truthy (more_items r))
                  \<and> start v' = (if hasMore v' then start v + limit * Suc n
                                 else start v + limit * (Suc n - 1))
                  \<and> (hasMore v' \<longrightarrow> 10000 \<le> start v')
                  \<and> pageCount v' = pageCount v + Suc n
                  \<and> allItems v' =
                      (if is_true co then allItems v
                       else allItems v @ concat (map (\<lambda>i. page_items fetch (start v + limit * i))
                                                  [0..<Suc n]))"
        proof (cases "is_true co")
          case True
          with tail same show ?thesis
            unfolding last total pages by (auto split: sum.splits)
        next
          case False
          with tail items show ?thesis
            unfolding last total pages by (auto split: sum.splits)
        qed
      qed
      then show ?thesis ..
    qed
  qed
qed


lemma hasMore_initial: "hasMore initial_vars" "start initial_vars = 0"
  "pageCount initial_vars = 0" "allItems initial_vars = []"
  by (simp_all add: initial_vars_def)

lemma run_bound:
  assumes "loop_run fetch mk co v cs n" and "start v = 0"
  shows "n \<le> 20"
proof (rule ccontr)
  assume "\<not> n \<le> 20"
  then have "n - 2 < n - 1" by simp
  with assms have "limit * (n - 2 + 1) < 10000"
    by (simp add: loop_run_def)
  with \<open>\<not> n \<le> 20\<close> show False
    by (simp add: limit_def)
qed

lemma run_trace_length:
  assumes "loop_run fetch mk co v cs n"
  shows "length (snd (page_loop fetch mk co v cs)) = length cs + n"
  using assms by (simp add: loop_run_def)

lemma run_failure:
  assumes run: "loop_run fetch mk co v cs n" and i: "i < n"
    and fails: "fetch (start v + limit * i) = Inl e"
  shows "i = n - 1 \<and> fst (page_loop fetch mk co v cs) = Inl e"
proof -
  have last: "i = n - 1"
  proof (rule ccontr)
    assume "i \<noteq> n - 1"
    with i have "i < n - 1" by simp
    with run have "\<exists>r. fetch (start v + limit * i) = Inr r"
      unfolding loop_run_def by blast
    with fails show False by simp
  qed
  with run fails show ?thesis
    by (auto simp: loop_run_def split: sum.splits)
qed

lemma run_endless:
  assumes run: "loop_run fetch mk co v cs n" and zero: "start v = 0"
    and more: "\<forall>s. \<exists>r. fetch s = Inr r \<and> truthy (more_items r)"
  shows "n = 20 \<and> (\<exists>v'. fst (page_loop fetch mk co v cs) = Inr v' \<and> start v' = 10000
            \<and> hasMore v' \<and> pageCount v' = pageCount v + 20
            \<and> allItems v' =
                (if is_true co then allItems v
                 else allItems v @ concat (map (\<lambda>i. page_items fetch (limit * i)) [0..<20])))"
proof -
  from more obtain r where r: "fetch (start v + limit * (n - 1)) = Inr r" "truthy (more_items r)"
    by blast
  with run zero obtain v' where v': "fst (page_loop fetch mk co v cs) = Inr v'"
    "hasMore v'" "start v' = limit * n" "10000 \<le> start v'"
    "pageCount v' = pageCount v + n"
    "allItems v' = (if is_true co then allItems v
         else allItems v @ concat (map (\<lambda>i. page_items fetch (limit * i)) [0..<n]))"
    by (auto simp: loop_run_def split: sum.splits)
  from run zero have "n \<le> 20" by (rule run_bound)
  moreover from v' have "20 \<le> n" by (simp add: limit_def)
  ultimately have n: "n = 20" by simp
  with v' show ?thesis by (simp add: limit_def)
qed

lemma deals_run:
  "\<exists>n. loop_run (\<lambda>s. getDeals api s limit (status_or_default status))
         (\<lambda>s. GetDeals s limit (status_or_default status)) co initial_vars [] n"
  by (rule page_loop_run) (simp add: initial_vars_def)

lemma persons_run:
  "\<exists>n. loop_run (\<lambda>s. getPersons api s limit) (\<lambda>s. GetPersons s limit) None initial_vars [] n"
  by (rule page_loop_run) (simp add: initial_vars_def)

lemma organizations_run:
  "\<exists>n. loop_run (\<lambda>s. getOrganizations api s limit) (\<lambda>s. GetOrganizations s limit) None
         initial_vars [] n"
  by (rule page_loop_run) (simp add: initial_vars_def)

lemma snd_deals_result [simp]: "snd (deals_result status co outcome) = snd outcome"
  by (simp add: deals_result_def Let_def split: prod.splits sum.splits option.splits)

lemma snd_persons_result [simp]: "snd (persons_result outcome) = snd outcome"
  by (simp add: persons_result_def split: prod.splits sum.splits)

lemma snd_organizations_result [simp]: "snd (organizations_result outcome) = snd outcome"
  by (simp add: organizations_result_def split: prod.splits sum.splits)

lemma loop_at_most_20:
  assumes "loop_run fetch mk co initial_vars [] n"
  shows "length (snd (page_loop fetch mk co initial_vars [])) \<le> 20"
  using run_bound [OF assms] run_trace_length [OF assms] by (simp add: initial_vars_def)

lemma loop_endless:
  assumes run: "loop_run fetch mk co initial_vars [] n"
    and more: "\<forall>s. \<exists>r. fetch s = Inr r \<and> more_items r = JBool True"
  shows "snd (page_loop fetch mk co initial_vars []) = map (\<lambda>i. mk (500 * i)) [0..<20]
     \<and> (\<exists>v. fst (page_loop fetch mk co initial_vars []) = Inr v \<and> start v = 10000
            \<and> pageCount v = 20)"
proof -
  from more have "\<forall>s. \<exists>r. fetch s = Inr r \<and> truthy (more_items r)"
    by (metis truthy.simps(3))
  from run_endless [OF run _ this]
  have n: "n = 20" and fin: "\<exists>v'. fst (page_loop fetch mk co initial_vars []) = Inr v'
      \<and> start v' = 10000 \<and> hasMore v' \<and> pageCount v' = pageCount initial_vars + 20"
    by (auto simp: initial_vars_def)
  from run n have "snd (page_loop fetch mk co initial_vars []) = map (\<lambda>i. mk (500 * i)) [0..<20]"
    by (simp add: loop_run_def initial_vars_def limit_def)
  with fin show ?thesis by (auto simp: initial_vars_def)
qed

subsection \<open>Termination at the ceiling\<close>

text \<open>
  C4. The loops of get-deals, get-persons and get-organizations are total functions
  (their termination is proved where they are defined), and on every upstream each
  issues at most 20 page fetches. When every page reports
  \<^verbatim>\<open>more_items_in_collection = true\<close>, the fetches are exactly the 20 of size 500 at offsets
  0, 500, ..., 9500, and the loop stops with the offset at 10000.
\<close>

theorem pagination_stops_at_ceiling:
  "length (snd (get_deals api status count_only)) \<le> 20
   \<and> length (snd (get_persons api)) \<le> 20
   \<and> length (snd (get_organizations api)) \<le> 20
   \<and> ((\<forall>s. \<exists>r. getDeals api s 500 (status_or_default status) = Inr r
              \<and> more_items r = JBool True) \<longrightarrow>
        snd (get_deals api status count_only) =
          map (\<lambda>i. GetDeals (500 * i) 500 (status_or_default status)) [0..<20]
        \<and> (\<exists>v. fst (get_deals_loop api status count_only initial_vars []) = Inr v
               \<and> start v = 10000 \<and> pageCount v = 20))
   \<and> ((\<forall>s. \<exists>r. getPersons api s 500 = Inr r \<and> more_items r = JBool True) \<longrightarrow>
        snd (get_persons api) = map (\<lambda>i. GetPersons (500 * i) 500) [0..<20]
        \<and> (\<exists>v. fst (get_persons_loop api initial_vars []) = Inr v
               \<and> start v = 10000 \<and> pageCount v = 20))
   \<and> ((\<forall>s. \<exists>r. getOrganizations api s 500 = Inr r \<and> more_items r = JBool True) \<longrightarrow>
        snd (get_organizations api) = map (\<lambda>i. GetOrganizations (500 * i) 500) [0..<20]
        \<and> (\<exists>v. fst (get_organizations_loop api initial_vars []) = Inr v
               \<and> start v = 10000 \<and> pageCount v = 20))"
proof -
  obtain nd where nd: "loop_run (\<lambda>s. getDeals api s limit (status_or_default status))
         (\<lambda>s. GetDeals s limit (status_or_default status)) count_only initial_vars [] nd"
    using deals_run by blast
  obtain np where np: "loop_run (\<lambda>s. getPersons api s limit) (\<lambda>s. GetPersons s limit) None
         initial_vars [] np"
    using persons_run by blast
  obtain no where no: "loop_run (\<lambda>s. getOrganizations api s limit)
         (\<lambda>s. GetOrganizations s limit) None initial_vars [] no"
    using organizations_run by blast
  have deals: "length (snd (get_deals api status count_only)) \<le> 20"
    using loop_at_most_20 [OF nd] by (simp add: get_deals_def get_deals_loop_eq)
  have persons: "length (snd (get_persons api)) \<le> 20"
    using loop_at_most_20 [OF np] by (simp add: get_persons_def get_persons_loop_eq)
  have organizations: "length (snd (get_organizations api)) \<le> 20"
    using loop_at_most_20 [OF no] by (simp add: get_organizations_def get_organizations_loop_eq)
  have deals_more: "(\<forall>s. \<exists>r. getDeals api s 500 (status_or_default status) = Inr r
              \<and> more_items r = JBool True) \<longrightarrow>
        snd (get_deals api status count_only) =
          map (\<lambda>i. GetDeals (500 * i) 500 (status_or_default status)) [0..<20]
        \<and> (\<exists>v. fst (get_deals_loop api status count_only initial_vars []) = Inr v
               \<and> start v = 10000 \<and> pageCount v = 20)"
    using loop_endless [OF nd]
    by (simp add: get_deals_def get_deals_loop_eq limit_def)
  have persons_more: "(\<forall>s. \<exists>r. getPersons api s 500 = Inr r \<and> more_items r = JBool True) \<longrightarrow>
        snd (get_persons api) = map (\<lambda>i. GetPersons (500 * i) 500) [0..<20]
        \<and> (\<exists>v. fst (get_persons_loop api initial_vars []) = Inr v
               \<and> start v = 10000 \<and> pageCount v = 20)"
    using loop_endless [OF np]
    by (simp add: get_persons_def get_persons_loop_eq limit_def)
  have organizations_more:
    "(\<forall>s. \<exists>r. getOrganizations api s 500 = Inr r \<and> more_items r = JBool True) \<longrightarrow>
        snd (get_organizations api) = map (\<lambda>i. GetOrganizations (500 * i) 500) [0..<20]
        \<and> (\<exists>v. fst (get_organizations_loop api initial_vars []) = Inr v
               \<and> start v = 10000 \<and> pageCount v = 20)"
    using loop_endless [OF no]
    by (simp add: get_organizations_def get_organizations_loop_eq limit_def)
  from deals persons organizations deals_more persons_more organizations_more
  show ?thesis by blast
qed

lemma endless_calls [simp]:
  "getDeals endless s l st = Inr (page_response [JNum (int s)] True)"
  "getPersons endless s l = Inr (page_response [JNum (int s)] True)"
  "getOrganizations endless s l = Inr (page_response [JNum (int s)] True)"
  by (simp_all add: endless_def)

lemma more_items_page_response [simp]: "more_items (page_response items flag) = JBool flag"
  by (simp add: more_items_def page_response_def)

theorem pagination_stops_at_ceiling_witness:
  "snd (get_deals endless None None) = map (\<lambda>i. GetDeals (500 * i) 500 All_not_deleted) [0..<20]
   \<and> snd (get_persons endless) = map (\<lambda>i. GetPersons (500 * i) 500) [0..<20]
   \<and> snd (get_organizations endless) = map (\<lambda>i. GetOrganizations (500 * i) 500) [0..<20]
   \<and> (\<exists>v. fst (get_deals_loop endless None None initial_vars []) = Inr v
          \<and> start v = 10000 \<and> pageCount v = 20)"
  using pagination_stops_at_ceiling [of endless None None]
  by (simp add: status_or_default_def)

subsection \<open>A rejected call ends the loop\<close>

declare String_nat.simps [simp del]

lemma loop_failure:
  assumes run: "loop_run fetch mk co initial_vars [] n"
    and c: "c \<in> set (snd (page_loop fetch mk co initial_vars []))"
    and fails: "\<And>s. mk s = c \<Longrightarrow> fetch s = Inl e"
    and inj: "inj mk"
  shows "fst (page_loop fetch mk co initial_vars []) = Inl e
     \<and> last (snd (page_loop fetch mk co initial_vars [])) = c
     \<and> distinct (snd (page_loop fetch mk co initial_vars []))"
proof -
  from run have n: "0 < n"
    and trace: "snd (page_loop fetch mk co initial_vars []) = map (\<lambda>i. mk (limit * i)) [0..<n]"
    by (simp_all add: loop_run_def initial_vars_def)
  from c trace obtain i where i: "i < n" "c = mk (limit * i)"
    by auto
  with fails have "fetch (start initial_vars + limit * i) = Inl e"
    by (simp add: initial_vars_def)
  from run_failure [OF run \<open>i < n\<close> this]
  have last: "i = n - 1" and thrown: "fst (page_loop fetch mk co initial_vars []) = Inl e"
    by simp_all
  from n have "last (map (\<lambda>i. mk (limit * i)) [0..<n]) = mk (limit * (n - 1))"
    by (cases n) simp_all
  with i last trace have "last (snd (page_loop fetch mk co initial_vars [])) = c"
    by simp
  moreover have "inj (\<lambda>i. mk (limit * i))"
    using inj by (fastforce simp: inj_def limit_def)
  then have "distinct (map (\<lambda>i. mk (limit * i)) [0..<n])"
    by (simp add: distinct_map inj_on_def inj_def)
  ultimately show ?thesis
    using thrown trace by simp
qed

lemma loop_thrown:
  assumes run: "loop_run fetch mk co initial_vars [] n"
    and thrown: "fst (page_loop fetch mk co initial_vars []) = Inl e"
  shows "\<exists>s. mk s \<in> set (snd (page_loop fetch mk co initial_vars [])) \<and> fetch s = Inl e"
proof -
  from run thrown have n: "0 < n"
    and trace: "snd (page_loop fetch mk co initial_vars []) = map (\<lambda>i. mk (limit * i)) [0..<n]"
    and last: "fetch (limit * (n - 1)) = Inl e"
    by (simp_all add: loop_run_def initial_vars_def)
  from n have "mk (limit * (n - 1)) \<in> set (map (\<lambda>i. mk (limit * i)) [0..<n])"
    by simp
  with trace last show ?thesis
    by auto
qed

lemma loop_first_call:
  assumes run: "loop_run fetch mk co initial_vars [] n"
  shows "snd (page_loop fetch mk co initial_vars []) \<noteq> []
     \<and> hd (snd (page_loop fetch mk co initial_vars [])) = mk 0"
proof -
  from run have n: "0 < n"
    and trace: "snd (page_loop fetch mk co initial_vars []) = map (\<lambda>i. mk (limit * i)) [0..<n]"
    by (simp_all add: loop_run_def initial_vars_def)
  from n have "[0..<n] = 0 # [1..<n]"
    by (simp add: upt_rec)
  with trace show ?thesis
    by simp
qed

lemma deals_result_thrown:
  "fst outcome = Inl e \<Longrightarrow>
   fst (deals_result status co outcome) =
     (case stringify e of
        Some thrown_by_stringify \<Rightarrow> Inl thrown_by_stringify
      | None \<Rightarrow> Inr (error_result [Fixed ''Error fetching deals: '',
                                    Inserted (getErrorMessage e)]))"
  by (cases outcome) (simp add: deals_result_def split: option.splits)

lemma deals_result_returned:
  "fst outcome = Inr v \<Longrightarrow> \<exists>r. fst (deals_result status co outcome) = Inr r"
  by (cases outcome) (simp add: deals_result_def Let_def)

lemma persons_result_thrown:
  "fst outcome = Inl e \<Longrightarrow>
   fst (persons_result outcome) =
     Inr (error_result [Fixed ''Error fetching persons: '', Inserted (getErrorMessage e)])"
  by (cases outcome) (simp add: persons_result_def)

lemma organizations_result_thrown:
  "fst outcome = Inl e \<Longrightarrow>
   fst (organizations_result outcome) =
     Inr (error_result [Fixed ''Error fetching organizations: '', Inserted (getErrorMessage e)])"
  by (cases outcome) (simp add: organizations_result_def)

lemma thrown_of_Some: "thrown_of r = Some e \<longleftrightarrow> r = Inl e"
  by (cases r) (simp_all add: thrown_of_def)

text \<open>
  What C7 says of get-deals holds of every thrown value that \<^verbatim>\<open>JSON.stringify\<close> serialises:
  the result is the error result with the thrown value's message, the rejected call is
  the last one issued, and none was issued twice. On any other thrown value the handler
  throws what \<^verbatim>\<open>JSON.stringify\<close> threw.
\<close>

lemma get_deals_failure:
  assumes "c \<in> set (snd (get_deals api status count_only))" and "failure api c = Some e"
  shows "fst (get_deals api status count_only) =
           (case stringify e of
              Some thrown_by_stringify \<Rightarrow> Inl thrown_by_stringify
            | None \<Rightarrow> Inr (error_result [Fixed ''Error fetching deals: '',
                                          Inserted (getErrorMessage e)]))
     \<and> last (snd (get_deals api status count_only)) = c
     \<and> distinct (snd (get_deals api status count_only))"
proof -
  let ?fetch = "\<lambda>s. getDeals api s limit (status_or_default status)"
  let ?mk = "\<lambda>s. GetDeals s limit (status_or_default status)"
  obtain n where run: "loop_run ?fetch ?mk count_only initial_vars [] n"
    using deals_run by blast
  have "fst (page_loop ?fetch ?mk count_only initial_vars []) = Inl e
     \<and> last (snd (page_loop ?fetch ?mk count_only initial_vars [])) = c
     \<and> distinct (snd (page_loop ?fetch ?mk count_only initial_vars []))"
  proof (rule loop_failure [OF run])
    show "c \<in> set (snd (page_loop ?fetch ?mk count_only initial_vars []))"
      using assms(1) by (simp add: get_deals_def get_deals_loop_eq)
    show "?fetch s = Inl e" if "?mk s = c" for s
      using that assms(2) by (auto simp: thrown_of_Some)
    show "inj ?mk"
      by (simp add: inj_def)
  qed
  then show ?thesis
    by (simp add: get_deals_def get_deals_loop_eq deals_result_thrown)
qed

lemma get_persons_failure:
  assumes "c \<in> set (snd (get_persons api))" and "failure api c = Some e"
  shows "fst (get_persons api) =
           Inr (error_result [Fixed ''Error fetching persons: '', Inserted (getErrorMessage e)])"
proof -
  let ?fetch = "\<lambda>s. getPersons api s limit"
  let ?mk = "\<lambda>s. GetPersons s limit"
  obtain n where run: "loop_run ?fetch ?mk None initial_vars [] n"
    using persons_run by blast
  have "fst (page_loop ?fetch ?mk None initial_vars []) = Inl e
     \<and> last (snd (page_loop ?fetch ?mk None initial_vars [])) = c
     \<and> distinct (snd (page_loop ?fetch ?mk None initial_vars []))"
  proof (rule loop_failure [OF run])
    show "c \<in> set (snd (page_loop ?fetch ?mk None initial_vars []))"
      using assms(1) by (simp add: get_persons_def get_persons_loop_eq)
    show "?fetch s = Inl e" if "?mk s = c" for s
      using that assms(2) by (auto simp: thrown_of_Some)
    show "inj ?mk"
      by (simp add: inj_def)
  qed
  then show ?thesis
    by (simp add: get_persons_def get_persons_loop_eq persons_result_thrown)
qed

lemma get_organizations_failure:
  assumes "c \<in> set (snd (get_organizations api))" and "failure api c = Some e"
  shows "fst (get_organizations api) =
           Inr (error_result [Fixed ''Error fetching organizations: '',
                              Inserted (getErrorMessage e)])"
proof -
  let ?fetch = "\<lambda>s. getOrganizations api s limit"
  let ?mk = "\<lambda>s. GetOrganizations s limit"
  obtain n where run: "loop_run ?fetch ?mk None initial_vars [] n"
    using organizations_run by blast
  have "fst (page_loop ?fetch ?mk None initial_vars []) = Inl e
     \<and> last (snd (page_loop ?fetch ?mk None initial_vars [])) = c
     \<and> distinct (snd (page_loop ?fetch ?mk None initial_vars []))"
  proof (rule loop_failure [OF run])
    show "c \<in> set (snd (page_loop ?fetch ?mk None initial_vars []))"
      using assms(1) by (simp add: get_organizations_def get_organizations_loop_eq)
    show "?fetch s = Inl e" if "?mk s = c" for s
      using that assms(2) by (auto simp: thrown_of_Some)
    show "inj ?mk"
      by (simp add: inj_def)
  qed
  then show ?thesis
    by (simp add: get_organizations_def get_organizations_loop_eq organizations_result_thrown)
qed

subsection \<open>A failed page fetch\<close>

lemmas page_defs = deals_page_def persons_page_def page_response_def more_items_def js_or_def
  limit_def status_or_default_def is_true_def initial_vars_def

text \<open>
  C7. The claim is that a rejected page fetch makes get-deals return the error-flagged
  result with the upstream's message. The \<^verbatim>\<open>catch\<close> block of get-deals first logs
  \<^verbatim>\<open>JSON.stringify(error, null, 2)\<close> (line 166), outside any guard: when the third page is
  rejected with an error that holds a reference to itself, that call throws, and the
  handler throws the \<^verbatim>\<open>TypeError\<close> instead of returning a result. The fetch is not retried.
  The \<^verbatim>\<open>catch\<close> block of get-persons has no such line: on the same rejection it returns
  the error result with the message.
\<close>

theorem unserialisable_error_escapes_get_deals:
  "get_deals failing_page None None =
     (Inl circular_structure,
      [GetDeals 0 500 All_not_deleted, GetDeals 500 500 All_not_deleted,
       GetDeals 1000 500 All_not_deleted])
   \<and> get_persons failing_page =
     (Inr \<lparr>content = [\<lparr>type' = ''text'',
                       text' = Template [Fixed ''Error fetching persons: '',
                                         Inserted ''socket hang up'']\<rparr>],
          isError = True\<rparr>,
      [GetPersons 0 500, GetPersons 500 500, GetPersons 1000 500])"
  by (simp add: get_deals_def deals_result_def get_deals_loop.simps
        get_persons_def persons_result_def get_persons_loop.simps
        failing_page_def cyclic_error_def page_defs error_result_def)

subsection \<open>Every handler contains the failures of its calls\<close>

lemma sdk_first_call: "sdk_call (first_call t)"
  by (cases t) simp_all

lemma contained_single_call:
  "contained api (Get_deal dealId) (get_deal api dealId)"
  "contained api (Get_deal_history dealId lim) (get_deal_history api dealId lim)"
  "contained api (Search_deals term) (search_deals api term)"
  "contained api (Get_person personId) (get_person api personId)"
  "contained api (Search_persons term) (search_persons api term)"
  "contained api (Get_organization organizationId) (get_organization api organizationId)"
  "contained api (Search_organizations term) (search_organizations api term)"
  "contained api Get_pipelines (get_pipelines api)"
  "contained api (Get_pipeline pipelineId) (get_pipeline api pipelineId)"
  "contained api (Search_leads term) (search_leads api term)"
  "contained api (Search_all term itemTypes) (search_all api term itemTypes)"
  by (simp_all add: contained_def thrown_of_Some get_deal_def get_deal_history_def
        search_deals_def get_person_def search_persons_def get_organization_def
        search_organizations_def get_pipelines_def get_pipeline_def search_leads_def
        search_all_def split: sum.splits)

lemma contained_get_deals:
  "contained api (Get_deals status count_only) (get_deals api status count_only)"
proof -
  let ?fetch = "\<lambda>s. getDeals api s limit (status_or_default status)"
  let ?mk = "\<lambda>s. GetDeals s limit (status_or_default status)"
  let ?out = "get_deals api status count_only"
  obtain n where run: "loop_run ?fetch ?mk count_only initial_vars [] n"
    using deals_run by blast
  have loop: "get_deals_loop api status count_only initial_vars [] =
      page_loop ?fetch ?mk count_only initial_vars []"
    by (rule get_deals_loop_eq)
  have first: "snd ?out \<noteq> []" "hd (snd ?out) = GetDeals 0 500 (status_or_default status)"
    using loop_first_call [OF run] by (simp_all add: get_deals_def loop limit_def)
  have envelope: "fst ?out = Inr (error_result
        [Fixed ''Error fetching deals: '', Inserted (getErrorMessage e)])"
    if "c \<in> set (snd ?out)" and "failure api c = Some e" and "stringify e = None" for c e
    using get_deals_failure [OF that(1,2)] that(3) by simp
  have returns: "\<exists>r. fst ?out = Inr r"
    if serialised: "\<forall>c e. c \<in> set (snd ?out) \<and> failure api c = Some e \<longrightarrow> stringify e = None"
  proof (cases "fst (page_loop ?fetch ?mk count_only initial_vars [])")
    case (Inr v)
    then show ?thesis
      by (simp add: get_deals_def loop deals_result_returned)
  next
    case (Inl e)
    from loop_thrown [OF run Inl] obtain s
      where s: "?mk s \<in> set (snd (page_loop ?fetch ?mk count_only initial_vars []))"
        "?fetch s = Inl e"
      by blast
    then have "?mk s \<in> set (snd ?out)" and "failure api (?mk s) = Some e"
      by (simp_all add: get_deals_def loop thrown_of_def)
    with serialised have "stringify e = None"
      by blast
    with Inl show ?thesis
      by (simp add: get_deals_def loop deals_result_thrown)
  qed
  show ?thesis
    unfolding contained_def
  proof (intro conjI allI impI)
    show "snd ?out \<noteq> []"
      by (rule first)
    show "hd (snd ?out) = first_call (Get_deals status count_only)"
      using first by simp
  next
    fix c e
    assume "c \<in> set (snd ?out) \<and> sdk_call c \<and> failure api c = Some e
        \<and> (stringifies_error (Get_deals status count_only) \<longrightarrow> stringify e = None)"
    then have "c \<in> set (snd ?out)" and "failure api c = Some e" and "stringify e = None"
      by simp_all
    from envelope [OF this]
    show "fst ?out = Inr (error_result
        (error_prefix (Get_deals status count_only) @ [Inserted (getErrorMessage e)]))"
      by simp
  next
    assume "stringifies_error (Get_deals status count_only) \<longrightarrow>
        (\<forall>c e. c \<in> set (snd ?out) \<and> failure api c = Some e \<longrightarrow> stringify e = None)"
    then have "\<forall>c e. c \<in> set (snd ?out) \<and> failure api c = Some e \<longrightarrow> stringify e = None"
      by simp
    then show "\<exists>r. fst ?out = Inr r"
      by (rule returns)
  qed
qed

lemma contained_get_persons: "contained api Get_persons (get_persons api)"
proof -
  let ?fetch = "\<lambda>s. getPersons api s limit"
  let ?mk = "\<lambda>s. GetPersons s limit"
  obtain n where run: "loop_run ?fetch ?mk None initial_vars [] n"
    using persons_run by blast
  have first: "snd (get_persons api) \<noteq> [] \<and> hd (snd (get_persons api)) = first_call Get_persons"
    using loop_first_call [OF run] by (simp add: get_persons_def get_persons_loop_eq limit_def)
  have returns: "\<exists>r. fst (get_persons api) = Inr r"
    by (cases "get_persons_loop api initial_vars []")
       (auto simp: get_persons_def persons_result_def split: sum.splits)
  from first returns show ?thesis
    unfolding contained_def using get_persons_failure [of _ api] by auto
qed

lemma contained_get_organizations: "contained api Get_organizations (get_organizations api)"
proof -
  let ?fetch = "\<lambda>s. getOrganizations api s limit"
  let ?mk = "\<lambda>s. GetOrganizations s limit"
  obtain n where run: "loop_run ?fetch ?mk None initial_vars [] n"
    using organizations_run by blast
  have first: "snd (get_organizations api) \<noteq> []
      \<and> hd (snd (get_organizations api)) = first_call Get_organizations"
    using loop_first_call [OF run]
    by (simp add: get_organizations_def get_organizations_loop_eq limit_def)
  have returns: "\<exists>r. fst (get_organizations api) = Inr r"
    by (cases "get_organizations_loop api initial_vars []")
       (auto simp: get_organizations_def organizations_result_def split: sum.splits)
  from first returns show ?thesis
    unfolding contained_def using get_organizations_failure [of _ api] by auto
qed

lemma stages_loop_trace:
  "snd (stages_loop api ps allStages calls) =
     calls @ map (\<lambda>p. FetchStages (property (JObj p) ''id'')) ps"
  by (induction ps arbitrary: allStages calls) (simp_all split: sum.splits)

lemma contained_get_stages: "contained api Get_stages (get_stages api)"
proof (cases "getPipelines api")
  case (Inl e)
  then show ?thesis
    by (auto simp: contained_def get_stages_def thrown_of_Some)
next
  case (Inr pipelinesResponse)
  let ?ps = "case pipelines_data pipelinesResponse of None \<Rightarrow> [] | Some ps \<Rightarrow> ps"
  obtain allStages calls where loop: "stages_loop api ?ps [] [GetPipelines] = (allStages, calls)"
    by (cases "stages_loop api ?ps [] [GetPipelines]")
  with stages_loop_trace [of api ?ps "[]" "[GetPipelines]"]
  have calls: "calls = GetPipelines # map (\<lambda>p. FetchStages (property (JObj p) ''id'')) ?ps"
    by simp
  have result: "get_stages api =
      (Inr (text_result (Stringified (JArr allStages))),
       GetPipelines # map (\<lambda>p. FetchStages (property (JObj p) ''id'')) ?ps)"
    using Inr loop calls by (simp add: get_stages_def)
  have "failure api c \<noteq> Some e" if "c \<in> set (snd (get_stages api))" and "sdk_call c" for c e
  proof -
    from that have "c = GetPipelines"
      unfolding result by auto
    with Inr show ?thesis
      by (simp add: thrown_of_def)
  qed
  then show ?thesis
    unfolding contained_def using result by auto
qed

lemma handle_contained: "contained api t (handle api t)"
  by (cases t)
     (simp_all add: contained_single_call contained_get_deals contained_get_persons
        contained_get_organizations contained_get_stages)

subsection \<open>The error boundary of the handlers\<close>

lemma one_pipeline_down_eval:
  "get_stages one_pipeline_down =
     (Inr (text_result (Stringified (JArr
        [JObj [(''id'', JNum 10), (''name'', JStr ''Contacted''), (''pipeline_name'', JStr ''Renewals'')],
         JObj [(''id'', JNum 11), (''name'', JStr ''Signed''), (''pipeline_name'', JStr ''Renewals'')]]))),
      [GetPipelines, FetchStages (JNum 1), FetchStages (JNum 2)])"
  by (simp add: get_stages_def pipeline_stages_def tag_stage_def one_pipeline_down_def
        sales_def renewals_def)

text \<open>
  C8, as stated, fails. By design: the stage fetch of the first pipeline is rejected
  while get-stages runs, and the handler returns a result that is not error-flagged.
  By the slip of C7: get-deals throws when the rejected page fetch threw an error that
  \<^verbatim>\<open>JSON.stringify\<close> cannot serialise.
\<close>

theorem rejected_stage_fetch_is_not_reported_counterexample:
  "FetchStages (JNum 1) \<in> set (snd (handle one_pipeline_down Get_stages))
   \<and> failure one_pipeline_down (FetchStages (JNum 1)) = Some (ErrorWithMessage ''fetch failed'')
   \<and> fst (handle one_pipeline_down Get_stages) =
       Inr \<lparr>content = [\<lparr>type' = ''text'', text' = Stringified (JArr
               [JObj [(''id'', JNum 10), (''name'', JStr ''Contacted''),
                      (''pipeline_name'', JStr ''Renewals'')],
                JObj [(''id'', JNum 11), (''name'', JStr ''Signed''),
                      (''pipeline_name'', JStr ''Renewals'')]])\<rparr>],
            isError = False\<rparr>
   \<and> GetDeals 1000 500 All_not_deleted \<in> set (snd (handle failing_page (Get_deals None None)))
   \<and> failure failing_page (GetDeals 1000 500 All_not_deleted) = Some cyclic_error
   \<and> fst (handle failing_page (Get_deals None None)) = Inl circular_structure"
proof -
  have stages: "handle one_pipeline_down Get_stages =
     (Inr (text_result (Stringified (JArr
        [JObj [(''id'', JNum 10), (''name'', JStr ''Contacted''), (''pipeline_name'', JStr ''Renewals'')],
         JObj [(''id'', JNum 11), (''name'', JStr ''Signed''), (''pipeline_name'', JStr ''Renewals'')]]))),
      [GetPipelines, FetchStages (JNum 1), FetchStages (JNum 2)])"
    by (simp add: one_pipeline_down_eval)
  have rejected: "failure one_pipeline_down (FetchStages (JNum 1))
      = Some (ErrorWithMessage ''fetch failed'')"
    by (simp add: one_pipeline_down_def thrown_of_def)
  have deals: "handle failing_page (Get_deals None None) =
     (Inl circular_structure,
      [GetDeals 0 500 All_not_deleted, GetDeals 500 500 All_not_deleted,
       GetDeals 1000 500 All_not_deleted])"
    by (simp add: get_deals_def deals_result_def get_deals_loop.simps failing_page_def
          cyclic_error_def page_defs)
  have thrown: "failure failing_page (GetDeals 1000 500 All_not_deleted) = Some cyclic_error"
    by (simp add: failing_page_def thrown_of_def)
  from rejected thrown show ?thesis
    unfolding stages deals by (simp add: text_result_def)
qed

text \<open>
  C8, amended. Every handler issues its call, with the arguments it was given, before
  anything else. If a call it issued through the SDK clients was rejected, the handler
  returns the error envelope \<^verbatim>\<open>{content: [{type: "text", text: ...}], isError: true}\<close>
  whose text is the handler's own prefix followed by the message of the thrown value; in
  particular when its first call is rejected, as a by-ID fetch of an ID the upstream does
  not have is. No thrown value leaves the handler. For get-deals both statements are
  made of thrown values that \<^verbatim>\<open>JSON.stringify\<close> serialises, and nothing is said of the
  others. A rejected per-pipeline stage fetch of get-stages is not an SDK call: the
  handler skips it and the result is not error-flagged (C9).
\<close>

theorem handlers_return_error_envelope:
  "snd (handle api t) \<noteq> [] \<and> hd (snd (handle api t)) = first_call t
   \<and> (\<forall>c e. c \<in> set (snd (handle api t)) \<and> sdk_call c \<and> failure api c = Some e
             \<and> (stringifies_error t \<longrightarrow> stringify e = None) \<longrightarrow>
          fst (handle api t) =
            Inr \<lparr>content = [\<lparr>type' = ''text'',
                    text' = Template (error_prefix t @ [Inserted (getErrorMessage e)])\<rparr>],
                 isError = True\<rparr>)
   \<and> (\<forall>e. failure api (first_call t) = Some e
           \<and> (stringifies_error t \<longrightarrow> stringify e = None) \<longrightarrow>
          fst (handle api t) =
            Inr \<lparr>content = [\<lparr>type' = ''text'',
                    text' = Template (error_prefix t @ [Inserted (getErrorMessage e)])\<rparr>],
                 isError = True\<rparr>)
   \<and> ((stringifies_error t \<longrightarrow>
          (\<forall>c e. c \<in> set (snd (handle api t)) \<and> failure api c = Some e \<longrightarrow> stringify e = None)) \<longrightarrow>
        (\<exists>r. fst (handle api t) = Inr r))"
proof -
  note contained = handle_contained [of api t, unfolded contained_def]
  from contained have trace: "snd (handle api t) \<noteq> []" "hd (snd (handle api t)) = first_call t"
    by simp_all
  then have issued: "first_call t \<in> set (snd (handle api t))"
    by (metis hd_in_set)
  from contained have envelope: "fst (handle api t) =
      Inr \<lparr>content = [\<lparr>type' = ''text'',
              text' = Template (error_prefix t @ [Inserted (getErrorMessage e)])\<rparr>],
           isError = True\<rparr>"
    if "c \<in> set (snd (handle api t))" and "sdk_call c" and "failure api c = Some e"
      and "stringifies_error t \<longrightarrow> stringify e = None" for c e
    using that unfolding error_result_def by blast
  from contained have returns: "(stringifies_error t \<longrightarrow>
          (\<forall>c e. c \<in> set (snd (handle api t)) \<and> failure api c = Some e \<longrightarrow> stringify e = None)) \<longrightarrow>
        (\<exists>r. fst (handle api t) = Inr r)"
    by blast
  from trace envelope envelope [OF issued sdk_first_call] returns
  show ?thesis
    by blast
qed

lemma unavailable_eval:
  "get_deals unavailable None None =
     (Inr (error_result [Fixed ''Error fetching deals: '', Inserted ''Service Unavailable'']),
      [GetDeals 0 500 All_not_deleted, GetDeals 500 500 All_not_deleted,
       GetDeals 1000 500 All_not_deleted])"
  by (simp add: get_deals_def deals_result_def get_deals_loop.simps unavailable_def
        ErrorWithMessage_def page_defs)

theorem handlers_return_error_envelope_witness:
  "failure deal_not_found (first_call (Get_deal 999))
       = Some (ErrorWithMessage ''Request failed with status code 404'')
   \<and> handle deal_not_found (Get_deal 999) =
       (Inr \<lparr>content = [\<lparr>type' = ''text'',
                text' = Template [Fixed ''Error fetching deal '', Number 999, Fixed '': '',
                                  Inserted ''Request failed with status code 404'']\<rparr>],
             isError = True\<rparr>,
        [GetDeal 999])
   \<and> GetDeals 1000 500 All_not_deleted \<in> set (snd (handle unavailable (Get_deals None None)))
   \<and> failure unavailable (GetDeals 1000 500 All_not_deleted)
       = Some (ErrorWithMessage ''Service Unavailable'')
   \<and> stringify (ErrorWithMessage ''Service Unavailable'') = None
   \<and> fst (handle unavailable (Get_deals None None)) =
       Inr \<lparr>content = [\<lparr>type' = ''text'',
               text' = Template [Fixed ''Error fetching deals: '',
                                 Inserted ''Service Unavailable'']\<rparr>],
            isError = True\<rparr>"
proof -
  have not_found: "failure deal_not_found (first_call (Get_deal 999))
       = Some (ErrorWithMessage ''Request failed with status code 404'')"
    by (simp add: deal_not_found_def thrown_of_def)
  have message: "getErrorMessage (ErrorWithMessage m) = m" for m
    by (simp add: ErrorWithMessage_def)
  have serialised: "stringify (ErrorWithMessage m) = None" for m
    by (simp add: ErrorWithMessage_def)
  have trace: "snd (handle deal_not_found (Get_deal 999)) = [GetDeal 999]"
    by (simp add: get_deal_def)
  from handlers_return_error_envelope [of deal_not_found "Get_deal 999"] not_found
  have by_id: "fst (handle deal_not_found (Get_deal 999)) =
       Inr \<lparr>content = [\<lparr>type' = ''text'',
               text' = Template [Fixed ''Error fetching deal '', Number 999, Fixed '': '',
                                 Inserted ''Request failed with status code 404'']\<rparr>],
            isError = True\<rparr>"
    by (simp add: message)
  have issued: "GetDeals 1000 500 All_not_deleted
      \<in> set (snd (handle unavailable (Get_deals None None)))"
    by (simp add: unavailable_eval)
  have rejected: "failure unavailable (GetDeals 1000 500 All_not_deleted)
       = Some (ErrorWithMessage ''Service Unavailable'')"
    by (simp add: unavailable_def thrown_of_def)
  from handlers_return_error_envelope [of unavailable "Get_deals None None"]
  have "\<And>c e. c \<in> set (snd (handle unavailable (Get_deals None None))) \<Longrightarrow> sdk_call c \<Longrightarrow>
      failure unavailable c = Some e \<Longrightarrow> stringify e = None \<Longrightarrow>
      fst (handle unavailable (Get_deals None None)) =
        Inr \<lparr>content = [\<lparr>type' = ''text'',
                text' = Template (error_prefix (Get_deals None None)
                                  @ [Inserted (getErrorMessage e)])\<rparr>],
             isError = True\<rparr>"
    by simp
  from this [OF issued _ rejected serialised]
  have page: "fst (handle unavailable (Get_deals None None)) =
       Inr \<lparr>content = [\<lparr>type' = ''text'',
               text' = Template [Fixed ''Error fetching deals: '',
                                 Inserted ''Service Unavailable'']\<rparr>],
            isError = True\<rparr>"
    by (simp add: message)
  from not_found by_id trace issued rejected serialised page show ?thesis
    by (simp add: prod_eq_iff)
qed

subsection \<open>The pages of a dataset\<close>

lemma concat_pages: "concat (map (\<lambda>i. take l (drop (l * i) xs)) [0..<n]) = take (l * n) xs"
proof (induction n)
  case 0
  show ?case by simp
next
  case (Suc n)
  have "take (l * n) xs @ take l (drop (l * n) xs) = take (l * n + l) xs"
    by (simp add: take_add)
  with Suc show ?case by (simp add: add.commute)
qed

lemma loop_well_formed:
  assumes run: "loop_run fetch mk co initial_vars [] n"
    and served: "\<forall>s. \<exists>r. fetch s = Inr r \<and> data r = JArr (take limit (drop s xs))
                   \<and> more_items r = JBool (s + limit < length xs)"
    and small: "length xs < 10000" and mode: "\<not> is_true co"
  shows "page_loop fetch mk co initial_vars [] =
           (Inr \<lparr>allItems = xs, start = limit * (n - 1), hasMore = False, pageCount = n\<rparr>,
            map (\<lambda>i. mk (limit * i)) [0..<n])
         \<and> n = max 1 ((length xs + 499) div 500)"
proof -
  from run have n: "0 < n"
    and trace: "snd (page_loop fetch mk co initial_vars []) = map (\<lambda>i. mk (limit * i)) [0..<n]"
    by (simp_all add: loop_run_def initial_vars_def)
  have items: "page_items fetch s = take limit (drop s xs)" for s
    using served [rule_format, of s] by (auto simp: page_items_def)
  have flag: "fetch s = Inr r \<Longrightarrow> truthy (more_items r) = (s + limit < length xs)" for s r
    using served [rule_format, of s] by auto
  from served obtain r where r: "fetch (limit * (n - 1)) = Inr r"
    by blast
  with run obtain v where v: "fst (page_loop fetch mk co initial_vars []) = Inr v"
    and more: "hasMore v = truthy (more_items r)"
    and start_v: "start v = (if hasMore v then limit * n else limit * (n - 1))"
    and ceiling: "hasMore v \<longrightarrow> 10000 \<le> start v"
    and pages: "pageCount v = n"
    and all: "allItems v = concat (map (\<lambda>i. page_items fetch (limit * i)) [0..<n])"
    using mode by (auto simp: loop_run_def initial_vars_def split: sum.splits)
  have last_flag: "hasMore v = (limit * (n - 1) + limit < length xs)"
    using more flag [OF r] by simp
  have stopped: "\<not> hasMore v"
  proof
    assume h: "hasMore v"
    with start_v ceiling have "10000 \<le> limit * n" by simp
    moreover from h last_flag n have "limit * n < length xs"
      by (cases n) (simp_all add: algebra_simps)
    ultimately show False using small by simp
  qed
  with last_flag n have upper: "length xs \<le> limit * n"
    by (cases n) (simp_all add: algebra_simps)
  have lower: "limit * (n - 1) < length xs" if "1 < n"
  proof -
    from that have "n - 2 < n - 1" by simp
    with run obtain r' where "fetch (limit * (n - 2)) = Inr r'" "truthy (more_items r')"
      by (auto simp: loop_run_def initial_vars_def)
    from flag [OF this(1)] this(2) have "limit * (n - 2) + limit < length xs"
      by simp
    moreover from that have "limit * (n - 2) + limit = limit * (n - 1)"
      by (cases n) (simp_all add: algebra_simps)
    ultimately show ?thesis by simp
  qed
  have count: "n = max 1 ((length xs + 499) div 500)"
  proof (cases "1 < n")
    case True
    from lower [OF True] upper True show ?thesis
      by (simp add: limit_def)
  next
    case False
    with n have "n = 1" by simp
    with upper show ?thesis
      by (simp add: limit_def)
  qed
  have "allItems v = take (limit * n) xs"
    using all by (simp add: items concat_pages)
  with upper have "allItems v = xs"
    by simp
  with stopped start_v pages
  have "v = \<lparr>allItems = xs, start = limit * (n - 1), hasMore = False, pageCount = n\<rparr>"
    by simp
  with v trace count show ?thesis
    by (simp add: prod_eq_iff)
qed

subsection \<open>A well-formed dataset\<close>

text \<open>
  C5. When the upstream serves a dataset \<open>xs\<close> of fewer than 10000 records in pages
  (the page at offset \<open>s\<close> of size \<open>l\<close> holds \<open>take l (drop s xs)\<close> and reports more items
  exactly when \<open>s + l < length xs\<close>), get-deals, not in count-only mode, returns exactly
  \<open>xs\<close>, in order, with \<open>total_count = length xs\<close>. It fetches the pages at offsets 0, 500,
  ... once each: as many as the dataset has pages of 500, and one when it is empty. For
  1500 records that is 3 fetches.
\<close>

theorem get_deals_returns_every_record_in_order:
  assumes served: "\<forall>s l. \<exists>r. getDeals api s l (status_or_default status) = Inr r
                     \<and> data r = JArr (take l (drop s xs))
                     \<and> more_items r = JBool (s + l < length xs)"
    and small: "length xs < 10000" and mode: "count_only \<noteq> Some True"
  shows "get_deals api status count_only =
     (Inr (text_result (Stringified (JObj
        [(''total_count'', JNum (int (length xs))),
         (''status_filter'', JStr (status_string (status_or_default status))),
         (''deals'', JArr xs)]))),
      map (\<lambda>i. GetDeals (500 * i) 500 (status_or_default status))
        [0..<max 1 ((length xs + 499) div 500)])"
proof -
  let ?fetch = "\<lambda>s. getDeals api s limit (status_or_default status)"
  let ?mk = "\<lambda>s. GetDeals s limit (status_or_default status)"
  obtain n where run: "loop_run ?fetch ?mk count_only initial_vars [] n"
    using deals_run by blast
  from served have "\<forall>s. \<exists>r. ?fetch s = Inr r \<and> data r = JArr (take limit (drop s xs))
      \<and> more_items r = JBool (s + limit < length xs)"
    by blast
  from loop_well_formed [OF run this small] mode
  show ?thesis
    by (simp add: get_deals_def get_deals_loop_eq deals_result_def is_true_def limit_def)
qed

lemma length_numbered [simp]: "length (numbered n) = n"
  by (simp add: numbered_def)

theorem get_deals_returns_every_record_in_order_witness:
  "length (numbered 1500) < 10000
   \<and> get_deals (paged (numbered 1500)) None None =
     (Inr (text_result (Stringified (JObj
        [(''total_count'', JNum 1500),
         (''status_filter'', JStr ''all_not_deleted''),
         (''deals'', JArr (numbered 1500))]))),
      [GetDeals 0 500 All_not_deleted, GetDeals 500 500 All_not_deleted,
       GetDeals 1000 500 All_not_deleted])"
proof -
  let ?xs = "numbered 1500"
  have served: "\<forall>s l. \<exists>r. getDeals (paged ?xs) s l (status_or_default None) = Inr r
                     \<and> data r = JArr (take l (drop s ?xs))
                     \<and> more_items r = JBool (s + l < length ?xs)"
    by (simp add: paged_def page_response_def more_items_def)
  have small: "length ?xs < 10000"
    by simp
  have pages: "[0..<max 1 ((length ?xs + 499) div 500)] = [0, 1, 2]"
    by (simp add: upt_rec)
  from get_deals_returns_every_record_in_order [OF served small, of None] small
  show ?thesis
    unfolding pages by (simp add: status_or_default_def)
qed

subsection \<open>Evaluating the handler of get-deals\<close>

lemmas eval_defs = get_deals_def deals_result_def initial_vars_def deals_page_def
  page_response_def more_items_def js_or_def limit_def status_or_default_def is_true_def
  text_result_def error_result_def

subsection \<open>The count-only mode\<close>

text \<open>
  C1. The claim is that \<^verbatim>\<open>count_only\<close> returns the number of deals the other mode returns.
  The handler returns \<^verbatim>\<open>start\<close> instead, the offset of the last page it fetched: on a single
  page of three deals that reports no more items, \<^verbatim>\<open>count_only = true\<close> gives
  \<^verbatim>\<open>total_count\<close> 0 and the message "Found 0 deals", while \<^verbatim>\<open>count_only = false\<close> returns the
  three deals. (The handler's own log line counts \<^verbatim>\<open>start + pageDeals\<close>.)
\<close>

theorem count_only_returns_offset_not_count:
  "get_deals (paged [JNum 1, JNum 2, JNum 3]) None (Some True) =
     (Inr (text_result (Stringified (JObj
        [(''total_count'', JNum 0),
         (''status_filter'', JStr ''all_not_deleted''),
         (''message'', JStr ''Found 0 deals'')]))),
      [GetDeals 0 500 All_not_deleted])
   \<and> get_deals (paged [JNum 1, JNum 2, JNum 3]) None (Some False) =
     (Inr (text_result (Stringified (JObj
        [(''total_count'', JNum 3),
         (''status_filter'', JStr ''all_not_deleted''),
         (''deals'', JArr [JNum 1, JNum 2, JNum 3])]))),
      [GetDeals 0 500 All_not_deleted])"
  by (simp add: eval_defs get_deals_loop.simps paged_def String_nat.simps)

subsection \<open>Leaving the loop at the ceiling\<close>

lemma endless_eval:
  "get_deals_loop endless None None initial_vars [] =
     (Inr \<lparr>allItems = map (\<lambda>i. JNum (int (500 * i))) [0..<20], start = 10000, hasMore = True,
            pageCount = 20\<rparr>,
      map (\<lambda>i. GetDeals (500 * i) 500 All_not_deleted) [0..<20])"
  by (simp add: eval_defs get_deals_loop.simps endless_def upt_rec)

text \<open>
  C2, as stated, fails: on the upstream whose every page reports more items the loop
  leaves at the ceiling with 20 deals, and the successful result has no
  \<^verbatim>\<open>terminated_early\<close> property.
\<close>

theorem ceiling_exit_is_not_marked_counterexample:
  "get_deals_loop endless None None initial_vars [] =
     (Inr \<lparr>allItems = map (\<lambda>i. JNum (int (500 * i))) [0..<20], start = 10000, hasMore = True,
            pageCount = 20\<rparr>,
      map (\<lambda>i. GetDeals (500 * i) 500 All_not_deleted) [0..<20])
   \<and> fst (get_deals endless None None) =
       Inr (text_result (Stringified (JObj
         [(''total_count'', JNum 20),
          (''status_filter'', JStr ''all_not_deleted''),
          (''deals'', JArr (map (\<lambda>i. JNum (int (500 * i))) [0..<20]))])))
   \<and> terminated_early (get_deals endless None None) = JUndefined"
  by (simp add: endless_eval get_deals_def deals_result_def is_true_def status_or_default_def
        terminated_early_def result_field_def text_result_def)

lemma get_deals_loop_stopped:
  "\<not> hasMore v \<Longrightarrow> get_deals_loop api status count_only v calls = (Inr v, calls)"
  by (subst get_deals_loop.simps) simp

lemma run_ceiling:
  assumes run: "loop_run fetch mk co initial_vars [] n"
    and out: "fst (page_loop fetch mk co initial_vars []) = Inr v"
    and ceiling: "10000 \<le> start v"
  shows "snd (page_loop fetch mk co initial_vars []) = map (\<lambda>i. mk (500 * i)) [0..<20]
     \<and> start v = 10000 \<and> hasMore v \<and> pageCount v = 20
     \<and> allItems v =
         (if is_true co then [] else concat (map (\<lambda>i. page_items fetch (500 * i)) [0..<20]))"
proof -
  from run have n: "0 < n" "n \<le> 20"
    using run_bound [OF run] by (simp_all add: loop_run_def initial_vars_def)
  from run out have v: "start v = (if hasMore v then limit * n else limit * (n - 1))"
    "pageCount v = n"
    "allItems v = (if is_true co then []
        else concat (map (\<lambda>i. page_items fetch (limit * i)) [0..<n]))"
    and trace: "snd (page_loop fetch mk co initial_vars []) = map (\<lambda>i. mk (limit * i)) [0..<n]"
    by (simp_all add: loop_run_def initial_vars_def)
  have more: "hasMore v"
  proof (rule ccontr)
    assume "\<not> hasMore v"
    with v(1) n have "start v < 10000" by (simp add: limit_def)
    with ceiling show False by simp
  qed
  with v(1) ceiling n have "n = 20"
    by (simp add: limit_def)
  with v trace more show ?thesis
    by (simp add: limit_def)
qed

text \<open>
  C2, amended. When the loop of get-deals leaves because the offset reached 10000, the
  handler has issued the 20 fetches at offsets 0, ..., 9500, and it returns a successful
  (not error-flagged) result without a \<^verbatim>\<open>terminated_early\<close> property: the early exit is
  only logged. When \<^verbatim>\<open>count_only\<close> is not true, that result holds the items of those 20
  pages in fetch order, in the shape of any other result of get-deals
  (\<^verbatim>\<open>total_count\<close>, \<^verbatim>\<open>status_filter\<close>, \<^verbatim>\<open>deals\<close>). What the count-only mode reports as the count
  is left out (see C1).
\<close>

theorem ceiling_exit_returns_partial_result:
  assumes loop: "get_deals_loop api status count_only initial_vars [] = (Inr v, calls)"
    and ceiling: "10000 \<le> start v"
  shows "calls = map (\<lambda>i. GetDeals (500 * i) 500 (status_or_default status)) [0..<20]
   \<and> snd (get_deals api status count_only) = calls
   \<and> (\<exists>r. fst (get_deals api status count_only) = Inr r \<and> \<not> isError r)
   \<and> terminated_early (get_deals api status count_only) = JUndefined
   \<and> (count_only \<noteq> Some True \<longrightarrow>
        fst (get_deals api status count_only) =
          Inr (text_result (Stringified (JObj
            [(''total_count'', JNum (int (length (allItems v)))),
             (''status_filter'', JStr (status_string (status_or_default status))),
             (''deals'', JArr (allItems v))])))
        \<and> allItems v =
            concat (map (\<lambda>i. page_items (\<lambda>s. getDeals api s 500 (status_or_default status))
                                (500 * i)) [0..<20]))"
proof -
  let ?fetch = "\<lambda>s. getDeals api s limit (status_or_default status)"
  let ?mk = "\<lambda>s. GetDeals s limit (status_or_default status)"
  obtain n where run: "loop_run ?fetch ?mk count_only initial_vars [] n"
    using deals_run by blast
  from loop have out: "fst (page_loop ?fetch ?mk count_only initial_vars []) = Inr v"
    and calls: "snd (page_loop ?fetch ?mk count_only initial_vars []) = calls"
    by (simp_all add: get_deals_loop_eq)
  from run_ceiling [OF run out ceiling] calls
  have trace: "calls = map (\<lambda>i. GetDeals (500 * i) 500 (status_or_default status)) [0..<20]"
    and items: "allItems v =
       (if is_true count_only then []
        else concat (map (\<lambda>i. page_items (\<lambda>s. getDeals api s 500 (status_or_default status))
                                 (500 * i)) [0..<20]))"
    by (simp_all add: limit_def)
  have issued: "snd (get_deals api status count_only) = calls"
    using loop by (simp add: get_deals_def)
  have result: "fst (get_deals api status count_only) =
     Inr (text_result (Stringified (JObj
        (if is_true count_only
         then [(''total_count'', JNum (int (start v))),
               (''status_filter'', JStr (status_string (status_or_default status))),
               (''message'', JStr (''Found '' @ String_nat (start v) @ '' deals''))]
         else [(''total_count'', JNum (int (length (allItems v)))),
               (''status_filter'', JStr (status_string (status_or_default status))),
               (''deals'', JArr (allItems v))]))))"
    using loop by (simp add: get_deals_def deals_result_def Let_def)
  have successful: "\<exists>r. fst (get_deals api status count_only) = Inr r \<and> \<not> isError r"
    unfolding result by (simp add: text_result_def)
  have unmarked: "terminated_early (get_deals api status count_only) = JUndefined"
    unfolding terminated_early_def result
    by (simp add: result_field_def text_result_def)
  have complete: "fst (get_deals api status count_only) =
          Inr (text_result (Stringified (JObj
            [(''total_count'', JNum (int (length (allItems v)))),
             (''status_filter'', JStr (status_string (status_or_default status))),
             (''deals'', JArr (allItems v))])))
        \<and> allItems v =
            concat (map (\<lambda>i. page_items (\<lambda>s. getDeals api s 500 (status_or_default status))
                                (500 * i)) [0..<20])"
    if "count_only \<noteq> Some True"
    using that result items by (simp add: is_true_def)
  from trace issued successful unmarked complete show ?thesis
    by blast
qed

theorem ceiling_exit_returns_partial_result_witness:
  "get_deals_loop endless None None initial_vars [] =
     (Inr \<lparr>allItems = map (\<lambda>i. JNum (int (500 * i))) [0..<20], start = 10000, hasMore = True,
            pageCount = 20\<rparr>,
      map (\<lambda>i. GetDeals (500 * i) 500 All_not_deleted) [0..<20])
   \<and> (10000 :: nat) \<le> 10000
   \<and> (None :: bool option) \<noteq> Some True
   \<and> get_deals endless None None =
       (Inr (text_result (Stringified (JObj
          [(''total_count'', JNum 20),
           (''status_filter'', JStr ''all_not_deleted''),
           (''deals'', JArr (map (\<lambda>i. JNum (int (500 * i))) [0..<20]))]))),
        map (\<lambda>i. GetDeals (500 * i) 500 All_not_deleted) [0..<20])
   \<and> terminated_early (get_deals endless None None) = JUndefined"
proof -
  have reached: "10000 \<le> start \<lparr>allItems = map (\<lambda>i. JNum (int (500 * i))) [0..<20],
      start = 10000, hasMore = True, pageCount = 20\<rparr>"
    by simp
  from ceiling_exit_returns_partial_result [OF endless_eval reached]
  show ?thesis
    by (simp add: endless_eval status_or_default_def prod_eq_iff)
qed

subsection \<open>A page without a data array\<close>

text \<open>
  C3, as stated, fails: a page without \<^verbatim>\<open>data\<close> whose pagination reports more items leaves
  \<^verbatim>\<open>hasMore\<close> true, and the loop goes on to fetch the next page.
\<close>

theorem page_without_data_counterexample:
  "\<not> isArray (data no_data_page)
   \<and> hasMore (deals_page None no_data_page initial_vars)
   \<and> get_deals gap None None =
       (Inr (text_result (Stringified (JObj
          [(''total_count'', JNum 1),
           (''status_filter'', JStr ''all_not_deleted''),
           (''deals'', JArr [JNum 1])]))),
        [GetDeals 0 500 All_not_deleted, GetDeals 500 500 All_not_deleted])"
  by (simp add: eval_defs get_deals_loop.simps gap_def no_data_page_def)

text \<open>
  C3, amended. A page whose \<^verbatim>\<open>data\<close> is absent or not an array adds no item and does not
  fail: the iteration changes only \<^verbatim>\<open>hasMore\<close>, which it takes from the page's pagination
  metadata (false when absent), and \<^verbatim>\<open>start\<close>, which it advances when \<^verbatim>\<open>hasMore\<close> holds. So
  the loop ends after such a page when the page reports no more items or the ceiling is
  reached, and goes on to the next page otherwise.
\<close>

theorem page_without_data_adds_nothing:
  assumes "\<not> isArray (data response)"
  shows "deals_page count_only response v =
      v\<lparr>hasMore := truthy (more_items response),
        start := (if truthy (more_items response) then start v + 500 else start v)\<rparr>
   \<and> (hasMore v \<and> getDeals api (start v) 500 (status_or_default status) = Inr response \<longrightarrow>
        get_deals_loop api status count_only v calls =
          (if truthy (more_items response) \<and> start v + 500 < 10000
           then get_deals_loop api status count_only
                  (v\<lparr>pageCount := pageCount v + 1, hasMore := True, start := start v + 500\<rparr>)
                  (calls @ [GetDeals (start v) 500 (status_or_default status)])
           else (Inr (v\<lparr>pageCount := pageCount v + 1,
                         hasMore := truthy (more_items response),
                         start := (if truthy (more_items response) then start v + 500
                                   else start v)\<rparr>),
                 calls @ [GetDeals (start v) 500 (status_or_default status)])))"
proof -
  have page: "deals_page count_only response w =
      w\<lparr>hasMore := truthy (more_items response),
        start := (if truthy (more_items response) then start w + 500 else start w)\<rparr>" for w
    using assms by (simp add: deals_page_def Let_def js_or_def limit_def)
  have "get_deals_loop api status count_only v calls =
          (if truthy (more_items response) \<and> start v + 500 < 10000
           then get_deals_loop api status count_only
                  (v\<lparr>pageCount := pageCount v + 1, hasMore := True, start := start v + 500\<rparr>)
                  (calls @ [GetDeals (start v) 500 (status_or_default status)])
           else (Inr (v\<lparr>pageCount := pageCount v + 1,
                         hasMore := truthy (more_items response),
                         start := (if truthy (more_items response) then start v + 500
                                   else start v)\<rparr>),
                 calls @ [GetDeals (start v) 500 (status_or_default status)]))"
    if "hasMore v" and "getDeals api (start v) 500 (status_or_default status) = Inr response"
    using that
    by (subst get_deals_loop.simps)
       (auto simp: page limit_def get_deals_loop_stopped)
  with page show ?thesis
    by blast
qed

theorem page_without_data_adds_nothing_witness:
  "\<not> isArray (data no_data_page)
   \<and> hasMore initial_vars
   \<and> getDeals gap (start initial_vars) 500 (status_or_default None) = Inr no_data_page
   \<and> deals_page None no_data_page initial_vars =
       \<lparr>allItems = [], start = 500, hasMore = True, pageCount = 0\<rparr>
   \<and> get_deals_loop gap None None initial_vars [] =
       get_deals_loop gap None None \<lparr>allItems = [], start = 500, hasMore = True, pageCount = 1\<rparr>
         [GetDeals 0 500 All_not_deleted]"
proof -
  have none: "\<not> isArray (data no_data_page)"
    by (simp add: no_data_page_def)
  have fetched: "getDeals gap (start initial_vars) 500 (status_or_default None) = Inr no_data_page"
    by (simp add: gap_def initial_vars_def)
  have flag: "truthy (more_items no_data_page)"
    by (simp add: no_data_page_def more_items_def)
  from page_without_data_adds_nothing [OF none, of None initial_vars gap None "[]"] fetched flag
  show ?thesis
    by (simp add: none initial_vars_def status_or_default_def)
qed

subsection \<open>A page without pagination metadata\<close>

text \<open>
  C6, as stated, fails: a page without pagination metadata is the last one, but it is
  not taken as a page of zero items: its two deals are in the result.
\<close>

theorem page_without_pagination_counterexample:
  "more_items bare_page = JUndefined
   \<and> get_deals bare None None =
       (Inr (text_result (Stringified (JObj
          [(''total_count'', JNum 2),
           (''status_filter'', JStr ''all_not_deleted''),
           (''deals'', JArr [JNum 1, JNum 2])]))),
        [GetDeals 0 500 All_not_deleted])"
  by (simp add: eval_defs get_deals_loop.simps bare_def bare_page_def)

text \<open>
  C6, amended. A page that omits the pagination metadata
  (\<^verbatim>\<open>additional_data?.pagination?.more_items_in_collection\<close> is undefined) sets the
  more-items flag to false and is the last page fetched. Its own items, when its \<^verbatim>\<open>data\<close>
  is an array and the mode is not count-only, are still appended. The handler then
  returns a successful result with everything accumulated, that page's items included.
\<close>

theorem page_without_pagination_is_final:
  assumes "more_items response = JUndefined" and "hasMore v"
    and "getDeals api (start v) 500 (status_or_default status) = Inr response"
  shows "get_deals_loop api status count_only v calls =
      (Inr (v\<lparr>allItems := allItems v @ (if is_true count_only then [] else elements (data response)),
               hasMore := False, pageCount := pageCount v + 1\<rparr>),
       calls @ [GetDeals (start v) 500 (status_or_default status)])
   \<and> fst (deals_result status count_only (get_deals_loop api status count_only v calls)) =
       Inr (text_result (Stringified (JObj
         (if is_true count_only
          then [(''total_count'', JNum (int (start v))),
                (''status_filter'', JStr (status_string (status_or_default status))),
                (''message'', JStr (''Found '' @ String_nat (start v) @ '' deals''))]
          else [(''total_count'', JNum (int (length (allItems v @ elements (data response))))),
                (''status_filter'', JStr (status_string (status_or_default status))),
                (''deals'', JArr (allItems v @ elements (data response)))]))))"
proof -
  have page: "deals_page count_only response w =
      w\<lparr>allItems := allItems w @ (if is_true count_only then [] else elements (data response)),
        hasMore := False\<rparr>" for w
    using assms(1) by (cases "data response") (simp_all add: deals_page_def Let_def js_or_def)
  have loop: "get_deals_loop api status count_only v calls =
      (Inr (v\<lparr>allItems := allItems v @ (if is_true count_only then [] else elements (data response)),
               hasMore := False, pageCount := pageCount v + 1\<rparr>),
       calls @ [GetDeals (start v) 500 (status_or_default status)])"
    using assms(2,3)
    by (subst get_deals_loop.simps)
       (auto simp: page limit_def get_deals_loop_stopped)
  show ?thesis
    unfolding loop by (simp add: deals_result_def Let_def)
qed

theorem page_without_pagination_is_final_witness:
  "more_items bare_page = JUndefined
   \<and> hasMore initial_vars
   \<and> getDeals bare (start initial_vars) 500 (status_or_default None) = Inr bare_page
   \<and> get_deals bare None None =
       (Inr (text_result (Stringified (JObj
          [(''total_count'', JNum 2),
           (''status_filter'', JStr ''all_not_deleted''),
           (''deals'', JArr [JNum 1, JNum 2])]))),
        [GetDeals 0 500 All_not_deleted])"
proof -
  have absent: "more_items bare_page = JUndefined"
    by (simp add: bare_page_def more_items_def)
  have first: "hasMore initial_vars"
    by (simp add: initial_vars_def)
  have fetched: "getDeals bare (start initial_vars) 500 (status_or_default None) = Inr bare_page"
    by (simp add: bare_def)
  from page_without_pagination_is_final [OF absent first fetched, of None "[]"]
  have loop: "get_deals_loop bare None None initial_vars [] =
      (Inr (initial_vars\<lparr>allItems := allItems initial_vars @ elements (data bare_page),
               hasMore := False, pageCount := pageCount initial_vars + 1\<rparr>),
       [GetDeals (start initial_vars) 500 (status_or_default None)])"
    by (simp add: is_true_def)
  have "get_deals bare None None =
       (Inr (text_result (Stringified (JObj
          [(''total_count'', JNum 2),
           (''status_filter'', JStr ''all_not_deleted''),
           (''deals'', JArr [JNum 1, JNum 2])]))),
        [GetDeals 0 500 All_not_deleted])"
    unfolding get_deals_def loop
    by (simp add: deals_result_def is_true_def initial_vars_def status_or_default_def
          bare_page_def)
  with absent first fetched show ?thesis
    by simp
qed

subsection \<open>get-stages\<close>

lemma stages_loop_collects:
  "fst (stages_loop api ps allStages calls) =
     allStages @ concat (map (\<lambda>p. case pipeline_stages api p of Inl e \<Rightarrow> [] | Inr stages \<Rightarrow> stages) ps)"
  by (induction ps arbitrary: allStages calls) (simp_all split: sum.splits)

lemma tag_stage_name: "property (tag_stage p stage) ''pipeline_name'' = property (JObj p) ''name''"
  by (simp add: tag_stage_def update_conv')

lemma pipeline_stages_tagged:
  assumes "pipeline_stages api p = Inr stages" and "s \<in> set stages"
  shows "\<exists>stage. s = tag_stage p stage"
  using assms by (auto simp: pipeline_stages_def split: sum.splits if_splits)

text \<open>
  C9. When the pipelines call resolves, get-stages returns a result that is not
  error-flagged and holds, in the order of the pipelines, what each pipeline
  contributes. A pipeline whose stage fetch is rejected contributes nothing, and the
  others are not affected. A pipeline whose stage fetch resolves to a body with a truthy
  \<^verbatim>\<open>success\<close> and an array \<^verbatim>\<open>data\<close> contributes every stage of that array, tagged. Every
  stage a pipeline contributes is a tagged one, and the \<^verbatim>\<open>pipeline_name\<close> of a tagged stage
  is the \<^verbatim>\<open>name\<close> of its pipeline (undefined when the pipeline has none, in which case
  \<^verbatim>\<open>JSON.stringify\<close> leaves the property out).
\<close>

theorem get_stages_tags_and_skips:
  assumes "getPipelines api = Inr response"
  shows "fst (get_stages api) =
      Inr (text_result (Stringified (JArr (concat (map
        (\<lambda>p. case pipeline_stages api p of Inl e \<Rightarrow> [] | Inr stages \<Rightarrow> stages)
        (case pipelines_data response of None \<Rightarrow> [] | Some ps \<Rightarrow> ps))))))
   \<and> (\<forall>p e. fetchStages api (property (JObj p) ''id'') = Inl e \<longrightarrow> pipeline_stages api p = Inl e)
   \<and> (\<forall>p body stages.
         fetchStages api (property (JObj p) ''id'') = Inr body
         \<and> truthy (property body ''success'') \<and> property body ''data'' = JArr stages \<longrightarrow>
         pipeline_stages api p = Inr (map (tag_stage p) stages))
   \<and> (\<forall>p stages s. pipeline_stages api p = Inr stages \<and> s \<in> set stages \<longrightarrow>
         (\<exists>stage. s = tag_stage p stage))
   \<and> (\<forall>p stage. property (tag_stage p stage) ''pipeline_name'' = property (JObj p) ''name'')"
proof (intro conjI allI impI)
  show "fst (get_stages api) =
      Inr (text_result (Stringified (JArr (concat (map
        (\<lambda>p. case pipeline_stages api p of Inl e \<Rightarrow> [] | Inr stages \<Rightarrow> stages)
        (case pipelines_data response of None \<Rightarrow> [] | Some ps \<Rightarrow> ps))))))"
    using assms stages_loop_collects [of api _ "[]" "[GetPipelines]"]
    by (simp add: get_stages_def split: prod.splits) (metis fst_conv)
next
  fix p e
  assume "fetchStages api (property (JObj p) ''id'') = Inl e"
  then show "pipeline_stages api p = Inl e"
    by (simp add: pipeline_stages_def)
next
  fix p body stages
  assume "fetchStages api (property (JObj p) ''id'') = Inr body
         \<and> truthy (property body ''success'') \<and> property body ''data'' = JArr stages"
  then show "pipeline_stages api p = Inr (map (tag_stage p) stages)"
    by (cases body) (auto simp: pipeline_stages_def)
next
  fix p stages s
  assume "pipeline_stages api p = Inr stages \<and> s \<in> set stages"
  then show "\<exists>stage. s = tag_stage p stage"
    using pipeline_stages_tagged by blast
next
  fix p stage
  show "property (tag_stage p stage) ''pipeline_name'' = property (JObj p) ''name''"
    by (rule tag_stage_name)
qed

theorem get_stages_tags_and_skips_witness:
  "getPipelines one_pipeline_down = Inr \<lparr>pipelines_data = Some [sales, renewals]\<rparr>
   \<and> fetchStages one_pipeline_down (property (JObj sales) ''id'') = Inl (ErrorWithMessage ''fetch failed'')
   \<and> pipeline_stages one_pipeline_down sales = Inl (ErrorWithMessage ''fetch failed'')
   \<and> fst (get_stages one_pipeline_down) =
       Inr (text_result (Stringified (JArr
         [JObj [(''id'', JNum 10), (''name'', JStr ''Contacted''), (''pipeline_name'', JStr ''Renewals'')],
          JObj [(''id'', JNum 11), (''name'', JStr ''Signed''), (''pipeline_name'', JStr ''Renewals'')]])))"
proof -
  have pipelines: "getPipelines one_pipeline_down = Inr \<lparr>pipelines_data = Some [sales, renewals]\<rparr>"
    by (simp add: one_pipeline_down_def)
  have down: "fetchStages one_pipeline_down (property (JObj sales) ''id'')
      = Inl (ErrorWithMessage ''fetch failed'')"
    by (simp add: one_pipeline_down_def sales_def)
  have up: "fetchStages one_pipeline_down (property (JObj renewals) ''id'')
      = Inr (JObj [(''success'', JBool True),
                   (''data'', JArr [JObj [(''id'', JNum 10), (''name'', JStr ''Contacted'')],
                                    JObj [(''id'', JNum 11), (''name'', JStr ''Signed'')]])])"
    by (simp add: one_pipeline_down_def renewals_def)
  note facts = get_stages_tags_and_skips [OF pipelines]
  from facts down have skipped: "pipeline_stages one_pipeline_down sales
      = Inl (ErrorWithMessage ''fetch failed'')"
    by blast
  from facts have served: "fetchStages one_pipeline_down (property (JObj p) ''id'') = Inr body \<Longrightarrow>
      truthy (property body ''success'') \<Longrightarrow> property body ''data'' = JArr stages \<Longrightarrow>
      pipeline_stages one_pipeline_down p = Inr (map (tag_stage p) stages)" for p body stages
    by blast
  from served [OF up] have tagged: "pipeline_stages one_pipeline_down renewals
      = Inr (map (tag_stage renewals)
               [JObj [(''id'', JNum 10), (''name'', JStr ''Contacted'')],
                JObj [(''id'', JNum 11), (''name'', JStr ''Signed'')]])"
    by simp
  have contents: "map (tag_stage renewals)
               [JObj [(''id'', JNum 10), (''name'', JStr ''Contacted'')],
                JObj [(''id'', JNum 11), (''name'', JStr ''Signed'')]] =
         [JObj [(''id'', JNum 10), (''name'', JStr ''Contacted''), (''pipeline_name'', JStr ''Renewals'')],
          JObj [(''id'', JNum 11), (''name'', JStr ''Signed''), (''pipeline_name'', JStr ''Renewals'')]]"
    by (simp add: tag_stage_def renewals_def)
  from facts have "fst (get_stages one_pipeline_down) =
      Inr (text_result (Stringified (JArr (concat (map
        (\<lambda>p. case pipeline_stages one_pipeline_down p of Inl e \<Rightarrow> [] | Inr stages \<Rightarrow> stages)
        [sales, renewals])))))"
    by simp
  then have "fst (get_stages one_pipeline_down) =
       Inr (text_result (Stringified (JArr
         [JObj [(''id'', JNum 10), (''name'', JStr ''Contacted''), (''pipeline_name'', JStr ''Renewals'')],
          JObj [(''id'', JNum 11), (''name'', JStr ''Signed''), (''pipeline_name'', JStr ''Renewals'')]])))"
    using contents by (simp add: skipped tagged)
  with pipelines down skipped show ?thesis
    by simp
qed

subsection \<open>get-deal-history\<close>

text \<open>
  C10. get-deal-history issues exactly one changelog request, whatever the upstream
  answers (so it never goes on to a \<^verbatim>\<open>next_cursor\<close>): cursor undefined, and limit 100 when
  the caller gives none. When the request resolves, the result is a successful one; a
  response without \<^verbatim>\<open>data\<close> gives \<^verbatim>\<open>history_count\<close> 0 and an empty \<^verbatim>\<open>history\<close>, and a
  response without \<^verbatim>\<open>next_cursor\<close> gives \<^verbatim>\<open>next_cursor\<close> null.
\<close>

theorem get_deal_history_single_request:
  "snd (get_deal_history api dealId lim) = [GetDealChangelog dealId JUndefined (limit_or_100 lim)]
   \<and> limit_or_100 None = 100
   \<and> (\<forall>response. getDealChangelog api dealId JUndefined (limit_or_100 lim) = Inr response \<longrightarrow>
        (\<exists>hc nc h. fst (get_deal_history api dealId lim) =
            Inr (text_result (Stringified (JObj
              [(''deal_id'', JNum dealId), (''history_count'', hc),
               (''next_cursor'', nc), (''history'', h)])))
          \<and> (data response = JUndefined \<or> data response = JNull \<longrightarrow> hc = JNum 0 \<and> h = JArr [])
          \<and> ((case additional_data response of None \<Rightarrow> True
                | Some a \<Rightarrow> next_cursor a = JUndefined \<or> next_cursor a = JNull) \<longrightarrow> nc = JNull)))"
proof (intro conjI allI impI)
  show "snd (get_deal_history api dealId lim) =
          [GetDealChangelog dealId JUndefined (limit_or_100 lim)]"
    by (simp add: get_deal_history_def)
  show "limit_or_100 None = 100"
    by (simp add: limit_or_100_def)
next
  fix response
  assume resolved: "getDealChangelog api dealId JUndefined (limit_or_100 lim) = Inr response"
  let ?hc = "js_or (length_of (data response)) (JNum 0)"
  let ?nc = "js_or (next_cursor_of response) JNull"
  let ?h = "js_or (data response) (JArr [])"
  have result: "fst (get_deal_history api dealId lim) =
      Inr (text_result (Stringified (JObj
        [(''deal_id'', JNum dealId), (''history_count'', ?hc),
         (''next_cursor'', ?nc), (''history'', ?h)])))"
    using resolved by (simp add: get_deal_history_def)
  have no_data: "data response = JUndefined \<or> data response = JNull
      \<longrightarrow> ?hc = JNum 0 \<and> ?h = JArr []"
    by (auto simp: js_or_def)
  have no_cursor: "(case additional_data response of None \<Rightarrow> True
        | Some a \<Rightarrow> next_cursor a = JUndefined \<or> next_cursor a = JNull) \<longrightarrow> ?nc = JNull"
    by (auto simp: js_or_def next_cursor_of_def split: option.splits)
  from result no_data no_cursor
  show "\<exists>hc nc h. fst (get_deal_history api dealId lim) =
            Inr (text_result (Stringified (JObj
              [(''deal_id'', JNum dealId), (''history_count'', hc),
               (''next_cursor'', nc), (''history'', h)])))
          \<and> (data response = JUndefined \<or> data response = JNull \<longrightarrow> hc = JNum 0 \<and> h = JArr [])
          \<and> ((case additional_data response of None \<Rightarrow> True
                | Some a \<Rightarrow> next_cursor a = JUndefined \<or> next_cursor a = JNull) \<longrightarrow> nc = JNull)"
    by blast
qed

theorem get_deal_history_single_request_witness:
  "snd (get_deal_history idle 7 None) = [GetDealChangelog 7 JUndefined 100]
   \<and> fst (get_deal_history idle 7 None) =
       Inr (text_result (Stringified (JObj
              [(''deal_id'', JNum 7), (''history_count'', JNum 0),
               (''next_cursor'', JNull), (''history'', JArr [])])))"
  using get_deal_history_single_request [of idle 7 None]
  by (simp add: idle_def no_response_def)

end
